theory Spec2Isabelle
  imports Main
begin

section \<open>JavaScript values\<close>

text \<open>
  The messages, tabs and injection options of the library are plain JavaScript values.
  Numbers are modelled as integers (tab identifiers are integers; NaN and fractions are
  left out). An object is its list of own properties in insertion order.
\<close>

datatype jsval =
    JUndefined
  | JNull
  | JBool bool
  | JNum int
  | JStr string
  | JArr "jsval list"
  | JObj "(string \<times> jsval) list"

type_synonym obj = "(string \<times> jsval) list"

text \<open>What a \<open>throw\<close> or a rejected promise carries.\<close>

datatype error = TypeError | Thrown jsval

text \<open>An optional string parameter (\<open>scriptId?: string\<close>) read as a value.\<close>

definition of_opt :: "string option \<Rightarrow> jsval" where
  "of_opt t = (case t of None \<Rightarrow> JUndefined | Some s \<Rightarrow> JStr s)"

text \<open>Truthiness, as \<open>if (v)\<close> and \<open>!v\<close> test it.\<close>

definition truthy :: "jsval \<Rightarrow> bool" where
  "truthy v = (case v of
       JUndefined \<Rightarrow> False
     | JNull \<Rightarrow> False
     | JBool b \<Rightarrow> b
     | JNum n \<Rightarrow> n \<noteq> 0
     | JStr s \<Rightarrow> s \<noteq> []
     | JArr _ \<Rightarrow> True
     | JObj _ \<Rightarrow> True)"

text \<open>
  \<open>a === b\<close>. Primitives are compared by value. Objects and arrays are compared by
  identity in JavaScript; the library only ever compares a value with a string constant or
  with an optional string, so an object or array operand makes the comparison false.
\<close>

definition strict_eq :: "jsval \<Rightarrow> jsval \<Rightarrow> bool" where
  "strict_eq a b = (case a of
       JArr _ \<Rightarrow> False
     | JObj _ \<Rightarrow> False
     | _ \<Rightarrow> a = b)"

text \<open>The canonical array index a property name denotes, if any.\<close>

definition is_digit :: "char \<Rightarrow> bool" where
  "is_digit c = (48 \<le> (of_char c :: nat) \<and> (of_char c :: nat) \<le> 57)"

definition array_index :: "string \<Rightarrow> nat option" where
  "array_index k = (case k of
       [] \<Rightarrow> None
     | c # cs \<Rightarrow>
         if \<not> list_all is_digit k then None
         else if of_char c = (48 :: nat) \<and> cs \<noteq> [] then None
         else Some (foldl (\<lambda>a d. 10 * a + (of_char d - 48)) 0 k))"

text \<open>
  \<open>k in v\<close>: a TypeError unless \<open>v\<close> is an object (arrays included). Only own
  properties are looked at; the inherited ones of \<open>Object.prototype\<close> are not
  modelled (the library's key is not among them).
\<close>

definition js_in :: "string \<Rightarrow> jsval \<Rightarrow> error + bool" where
  "js_in k v = (case v of
       JObj ps \<Rightarrow> Inr (map_of ps k \<noteq> None)
     | JArr xs \<Rightarrow> Inr (k = ''length'' \<or>
                       (case array_index k of None \<Rightarrow> False | Some i \<Rightarrow> i < length xs))
     | _ \<Rightarrow> Inl TypeError)"

text \<open>
  \<open>v[k]\<close> and \<open>v.k\<close>: a TypeError on \<open>undefined\<close> and \<open>null\<close>, the own
  property of an object or array, \<open>undefined\<close> where there is none. The built-in
  properties of primitives are not modelled (the library reads none of them).
\<close>

definition own_prop :: "obj \<Rightarrow> string \<Rightarrow> jsval" where
  "own_prop ps k = (case map_of ps k of None \<Rightarrow> JUndefined | Some x \<Rightarrow> x)"

definition js_get :: "jsval \<Rightarrow> string \<Rightarrow> error + jsval" where
  "js_get v k = (case v of
       JUndefined \<Rightarrow> Inl TypeError
     | JNull \<Rightarrow> Inl TypeError
     | JObj ps \<Rightarrow> Inr (own_prop ps k)
     | JArr xs \<Rightarrow>
         Inr (if k = ''length'' then JNum (int (length xs))
              else (case array_index k of
                      None \<Rightarrow> JUndefined
                    | Some i \<Rightarrow> if i < length xs then xs ! i else JUndefined))
     | _ \<Rightarrow> Inr JUndefined)"

text \<open>Writing a property: the value is replaced in place, a new key goes last.\<close>

fun put :: "string \<Rightarrow> jsval \<Rightarrow> obj \<Rightarrow> obj" where
  "put k v [] = [(k, v)]"
| "put k v ((k', v') # ps) = (if k = k' then (k, v) # ps else (k', v') # put k v ps)"

text \<open>The object literal \<open>{ ...base, ...extra }\<close>.\<close>

definition spread :: "obj \<Rightarrow> obj \<Rightarrow> obj" where
  "spread base extra = foldl (\<lambda>acc (k, v). put k v acc) base extra"


section \<open>Message protocol (messages.ts)\<close>

definition KEY :: string where
  "KEY = ''[content-script-activation]''"

definition TYPE_REQUEST_ACTIVATION :: string where
  "TYPE_REQUEST_ACTIVATION = ''request-activation''"

definition TYPE_ACTIVATION_SUCCESS :: string where
  "TYPE_ACTIVATION_SUCCESS = ''activation-success''"

text \<open>\<open>RequestActivationContext = { tab, tabId }\<close>.\<close>

record activation_context =
  tab :: obj
  tabId :: jsval

definition context_val :: "activation_context \<Rightarrow> jsval" where
  "context_val c = JObj [(''tab'', JObj (tab c)), (''tabId'', tabId c)]"

text \<open>\<open>{ [KEY]: TYPE_REQUEST_ACTIVATION, context, scriptId }\<close>.\<close>

definition createRequestActivationMessage :: "jsval \<Rightarrow> string option \<Rightarrow> jsval" where
  "createRequestActivationMessage ctx scriptId =
     JObj [(KEY, JStr TYPE_REQUEST_ACTIVATION), (''context'', ctx), (''scriptId'', of_opt scriptId)]"

text \<open>\<open>KEY in message && message[KEY] === TYPE_REQUEST_ACTIVATION\<close>.\<close>

definition isRequestActivationMessage :: "jsval \<Rightarrow> error + bool" where
  "isRequestActivationMessage message =
     (case js_in KEY message of
        Inl e \<Rightarrow> Inl e
      | Inr False \<Rightarrow> Inr False
      | Inr True \<Rightarrow>
          (case js_get message KEY of
             Inl e \<Rightarrow> Inl e
           | Inr v \<Rightarrow> Inr (strict_eq v (JStr TYPE_REQUEST_ACTIVATION))))"

text \<open>\<open>{ [KEY]: TYPE_ACTIVATION_SUCCESS, scriptId }\<close>.\<close>

definition createActivationSuccessMessage :: "string option \<Rightarrow> jsval" where
  "createActivationSuccessMessage scriptId =
     JObj [(KEY, JStr TYPE_ACTIVATION_SUCCESS), (''scriptId'', of_opt scriptId)]"

definition isActivationSuccessMessage :: "jsval \<Rightarrow> error + bool" where
  "isActivationSuccessMessage message =
     (case js_in KEY message of
        Inl e \<Rightarrow> Inl e
      | Inr False \<Rightarrow> Inr False
      | Inr True \<Rightarrow>
          (case js_get message KEY of
             Inl e \<Rightarrow> Inl e
           | Inr v \<Rightarrow> Inr (strict_eq v (JStr TYPE_ACTIVATION_SUCCESS))))"


section \<open>Target agent (content-script.ts)\<close>

text \<open>
  What the listener does that the page can observe: it calls the activation callback, with
  the outcome of the call, and it calls \<open>sendResponse\<close>.
\<close>

datatype agent_event =
    OnActivation jsval jsval "error + unit"
  | SendResponse jsval

text \<open>
  The callback \<open>onActivation\<close> is the caller's code: it is given the context and the
  script id, may change the page's state \<open>'p\<close>, and returns or throws.
\<close>

type_synonym 'p callback = "jsval \<Rightarrow> jsval \<Rightarrow> 'p \<Rightarrow> (error + unit) \<times> 'p"

type_synonym 'p page = "agent_event list \<times> 'p"

text \<open>
  \<open>setupActivation(onActivation, scriptId)\<close> registers one listener on
  \<open>browser.runtime.onMessage\<close>; the result here is that listener, applied to a message
  and to the page (the events so far and the page's state). An exception leaves the
  listener where it is thrown.
\<close>

definition setupActivation ::
  "'p callback option \<Rightarrow> string option \<Rightarrow> jsval \<Rightarrow> 'p page \<Rightarrow> (error + unit) \<times> 'p page" where
  "setupActivation onActivation scriptId message pg =
     (case isRequestActivationMessage message of
        Inl e \<Rightarrow> (Inl e, pg)
      | Inr False \<Rightarrow> (Inr (), pg)
      | Inr True \<Rightarrow>
          (case js_get message ''scriptId'' of
             Inl e \<Rightarrow> (Inl e, pg)
           | Inr sid \<Rightarrow>
               if \<not> strict_eq sid (of_opt scriptId) then (Inr (), pg)
               else
                 (case onActivation of
                    None \<Rightarrow>
                      (Inr (), (fst pg @ [SendResponse (createActivationSuccessMessage scriptId)],
                                snd pg))
                  | Some cb \<Rightarrow>
                      (case js_get message ''context'' of
                         Inl e \<Rightarrow> (Inl e, pg)
                       | Inr ctx \<Rightarrow>
                           (case cb ctx (of_opt scriptId) (snd pg) of
                              (Inl e, p') \<Rightarrow>
                                (Inl e, (fst pg @ [OnActivation ctx (of_opt scriptId) (Inl e)], p'))
                            | (Inr u, p') \<Rightarrow>
                                (Inr (),
                                 (fst pg @ [OnActivation ctx (of_opt scriptId) (Inr ()),
                                            SendResponse (createActivationSuccessMessage scriptId)],
                                  p')))))))"


section \<open>Controller: the probe\<close>

text \<open>
  What a trigger does that the host can observe, each call with its outcome (\<open>Inl\<close>: the
  call threw or its promise was rejected): the tab filter, a message sent to a tab, the two
  hooks, a script injection and a style injection with the argument passed to the host.
\<close>

datatype event =
    FilterTab obj "error + jsval"
  | SendMessage jsval jsval "error + jsval"
  | BeforeInjection jsval "error + unit"
  | ExecuteScript jsval "error + jsval"
  | InsertCSS jsval "error + jsval"
  | AfterInjection jsval "error + unit"

text \<open>
  The host's capabilities are not part of the library: \<open>browser.tabs.sendMessage\<close>,
  \<open>browser.scripting.executeScript\<close> and \<open>browser.scripting.insertCSS\<close> are
  parameters, each a function of its arguments and of the state \<open>'w\<close> of the world
  outside the controller.
\<close>

record 'w browser =
  tabs_sendMessage :: "jsval \<Rightarrow> jsval \<Rightarrow> 'w \<Rightarrow> (error + jsval) \<times> 'w"
  scripting_executeScript :: "jsval \<Rightarrow> 'w \<Rightarrow> (error + jsval) \<times> 'w"
  scripting_insertCSS :: "jsval \<Rightarrow> 'w \<Rightarrow> (error + jsval) \<times> 'w"

text \<open>A run: the events so far and the state of the world.\<close>

type_synonym 'w run = "event list \<times> 'w"

text \<open>
  The body of the \<open>try\<close> block of \<open>activateContentScript\<close>: the value assigned to
  \<open>isInjected\<close>, or the exception that leaves the block. The request is built by
  \<open>createRequestActivationMessage(context)\<close>, with no second argument.
\<close>

definition send_request ::
  "'w browser \<Rightarrow> activation_context \<Rightarrow> string option \<Rightarrow> 'w run \<Rightarrow> (error + bool) \<times> 'w run" where
  "send_request br c sid st =
     (let message = createRequestActivationMessage (context_val c) None in
      case tabs_sendMessage br (tabId c) message (snd st) of
        (Inl e, w) \<Rightarrow> (Inl e, (fst st @ [SendMessage (tabId c) message (Inl e)], w))
      | (Inr response, w) \<Rightarrow>
          (let st' = (fst st @ [SendMessage (tabId c) message (Inr response)], w) in
           case isActivationSuccessMessage response of
             Inl e \<Rightarrow> (Inl e, st')
           | Inr False \<Rightarrow> (Inr False, st')
           | Inr True \<Rightarrow>
               (case js_get response ''scriptId'' of
                  Inl e \<Rightarrow> (Inl e, st')
                | Inr v \<Rightarrow> (Inr (strict_eq v (of_opt sid)), st'))))"

text \<open>\<open>activateContentScript\<close>: the \<open>catch\<close> turns every exception into \<open>false\<close>.\<close>

definition activateContentScript ::
  "'w browser \<Rightarrow> activation_context \<Rightarrow> string option \<Rightarrow> 'w run \<Rightarrow> (error + bool) \<times> 'w run" where
  "activateContentScript br c sid st =
     (case send_request br c sid st of
        (Inl e, st') \<Rightarrow> (Inr False, st')
      | (Inr isInjected, st') \<Rightarrow> (Inr isInjected, st'))"


section \<open>Controller: options and injection\<close>

text \<open>
  One source of a script or style: a file name, or the options object passed on to the
  host. \<open>scripts\<close> and \<open>styles\<close> hold one source or an array of them.
\<close>

datatype source = Str string | Opts obj

datatype sources = One source | Many "source list"

type_synonym 'w hook = "jsval \<Rightarrow> 'w \<Rightarrow> (error + unit) \<times> 'w"

record 'w inject_options =
  beforeInjection :: "'w hook option"
  afterInjection :: "'w hook option"
  scripts :: sources
  styles :: "sources option"

datatype 'w inject_arg =
    InjectString string
  | InjectStrings "string list"
  | InjectOptions "'w inject_options"

record 'w options =
  filterTab :: "(obj \<Rightarrow> 'w \<Rightarrow> (error + jsval) \<times> 'w) option"
  inject :: "'w inject_arg"
  scriptId :: "string option"
  injectOnClick :: "bool option"

text \<open>\<open>if (scripts)\<close>: only the empty string is falsy among the values of the type.\<close>

definition given :: "sources \<Rightarrow> bool" where
  "given s = (case s of One (Str f) \<Rightarrow> f \<noteq> [] | One (Opts _) \<Rightarrow> True | Many _ \<Rightarrow> True)"

text \<open>
  Lines 161 to 168 (and 176 to 183): the array of sources, the \<open>forEach\<close> that sorts them
  into file names and option objects, and the one \<open>{ files }\<close> object appended for the
  file names.
\<close>

definition sort_source :: "string list \<times> obj list \<Rightarrow> source \<Rightarrow> string list \<times> obj list" where
  "sort_source acc s = (case s of
       Str f \<Rightarrow> (fst acc @ [f], snd acc)
     | Opts ob \<Rightarrow> (fst acc, snd acc @ [ob]))"

definition injections :: "sources \<Rightarrow> obj list" where
  "injections srcs =
     (let allInjections = (case srcs of Many xs \<Rightarrow> xs | One x \<Rightarrow> [x]);
          sorted = foldl sort_source ([], []) allInjections
      in if length (fst sorted) > 0
         then snd sorted @ [[(''files'', JArr (map JStr (fst sorted)))]]
         else snd sorted)"

text \<open>The argument of one injection: \<open>{ target: { tabId }, ...x }\<close>.\<close>

definition with_target :: "jsval \<Rightarrow> obj \<Rightarrow> jsval" where
  "with_target tid x = JObj (spread [(''target'', JObj [(''tabId'', tid)])] x)"

text \<open>
  \<open>all.map((x) => api({ target: { tabId }, ...x }))\<close>: the host is called once for each
  object, in order; the result is the outcome of each call. The host's functions return
  promises: \<open>Inl\<close> is a promise that is rejected, so the calls that follow are
  still made.
\<close>

fun dispatch ::
  "(jsval \<Rightarrow> 'w \<Rightarrow> (error + jsval) \<times> 'w) \<Rightarrow> (jsval \<Rightarrow> error + jsval \<Rightarrow> event) \<Rightarrow> jsval \<Rightarrow>
   obj list \<Rightarrow> 'w run \<Rightarrow> (error + jsval) list \<times> 'w run" where
  "dispatch api ev tid [] st = ([], st)"
| "dispatch api ev tid (x # xs) st =
     (case api (with_target tid x) (snd st) of
        (r, w) \<Rightarrow>
          (case dispatch api ev tid xs (fst st @ [ev (with_target tid x) r], w) of
             (rs, st') \<Rightarrow> (r # rs, st')))"

text \<open>
  \<open>Promise.all\<close>: rejected as soon as one promise is. Which rejection comes first in
  time is the host's affair; the model takes the first in the order of the calls.
\<close>

fun promise_all :: "(error + 'a) list \<Rightarrow> error + 'a list" where
  "promise_all [] = Inr []"
| "promise_all (Inl e # rs) = Inl e"
| "promise_all (Inr v # rs) = (case promise_all rs of Inl e \<Rightarrow> Inl e | Inr vs \<Rightarrow> Inr (v # vs))"

text \<open>Lines 159 to 189: every injection is started, scripts first, then styles.\<close>

definition start_injections ::
  "'w browser \<Rightarrow> jsval \<Rightarrow> 'w inject_options \<Rightarrow> 'w run \<Rightarrow> (error + jsval) list \<times> 'w run" where
  "start_injections br tid ro st =
     (case (if given (scripts ro)
            then dispatch (scripting_executeScript br) ExecuteScript tid (injections (scripts ro)) st
            else ([], st)) of
        (rs1, st1) \<Rightarrow>
          (case (case styles ro of
                   None \<Rightarrow> ([], st1)
                 | Some sty \<Rightarrow>
                     if given sty
                     then dispatch (scripting_insertCSS br) InsertCSS tid (injections sty) st1
                     else ([], st1)) of
             (rs2, st2) \<Rightarrow> (rs1 @ rs2, st2)))"

text \<open>\<open>await hook?.(injectionContext)\<close>.\<close>

definition run_hook ::
  "'w hook option \<Rightarrow> (jsval \<Rightarrow> error + unit \<Rightarrow> event) \<Rightarrow> jsval \<Rightarrow> 'w run \<Rightarrow> (error + unit) \<times> 'w run" where
  "run_hook h ev ic st = (case h of
       None \<Rightarrow> (Inr (), st)
     | Some f \<Rightarrow> (case f ic (snd st) of (r, w) \<Rightarrow> (r, (fst st @ [ev ic r], w))))"

text \<open>The injection shorthand: a string or an array of strings stands for \<open>{ scripts }\<close>.\<close>

definition resolve_inject :: "'w inject_arg \<Rightarrow> 'w inject_options" where
  "resolve_inject i = (case i of
       InjectString s \<Rightarrow>
         \<lparr>beforeInjection = None, afterInjection = None, scripts = One (Str s), styles = None\<rparr>
     | InjectStrings xs \<Rightarrow>
         \<lparr>beforeInjection = None, afterInjection = None, scripts = Many (map Str xs),
          styles = None\<rparr>
     | InjectOptions io \<Rightarrow> io)"


section \<open>Controller: one trigger\<close>

text \<open>Lines 147 to 196 of \<open>activate\<close>: what follows a probe that did not succeed.\<close>

definition inject_then_activate ::
  "'w browser \<Rightarrow> 'w options \<Rightarrow> activation_context \<Rightarrow> 'w run \<Rightarrow> (error + unit) \<times> 'w run" where
  "inject_then_activate br opts c st =
     (let resolvedInject = resolve_inject (inject opts); ic = context_val c in
      case run_hook (beforeInjection resolvedInject) BeforeInjection ic st of
        (Inl e, st1) \<Rightarrow> (Inl e, st1)
      | (Inr u, st1) \<Rightarrow>
          (case start_injections br (tabId c) resolvedInject st1 of
             (rs, st2) \<Rightarrow>
               (case promise_all rs of
                  Inl e \<Rightarrow> (Inl e, st2)
                | Inr vs \<Rightarrow>
                    (case run_hook (afterInjection resolvedInject) AfterInjection ic st2 of
                       (Inl e, st3) \<Rightarrow> (Inl e, st3)
                     | (Inr u', st3) \<Rightarrow>
                         (case activateContentScript br c (scriptId opts) st3 of
                            (Inl e, st4) \<Rightarrow> (Inl e, st4)
                          | (Inr b, st4) \<Rightarrow> (Inr (), st4))))))"

text \<open>\<open>filterTab && !filterTab(tab)\<close>: whether the trigger goes on.\<close>

definition run_filter ::
  "(obj \<Rightarrow> 'w \<Rightarrow> (error + jsval) \<times> 'w) option \<Rightarrow> obj \<Rightarrow> 'w run \<Rightarrow> (error + bool) \<times> 'w run" where
  "run_filter flt t st = (case flt of
       None \<Rightarrow> (Inr True, st)
     | Some f \<Rightarrow>
         (case f t (snd st) of
            (Inl e, w) \<Rightarrow> (Inl e, (fst st @ [FilterTab t (Inl e)], w))
          | (Inr v, w) \<Rightarrow> (Inr (truthy v), (fst st @ [FilterTab t (Inr v)], w))))"

text \<open>
  \<open>activate(tab)\<close>, the trigger handler: \<open>Inr ()\<close> when its promise is fulfilled,
  \<open>Inl e\<close> when it is rejected.
\<close>

definition activate ::
  "'w browser \<Rightarrow> 'w options \<Rightarrow> obj \<Rightarrow> 'w run \<Rightarrow> (error + unit) \<times> 'w run" where
  "activate br opts t st =
     (if \<not> truthy (own_prop t ''id'') then (Inr (), st)
      else
        (case run_filter (filterTab opts) t st of
           (Inl e, st1) \<Rightarrow> (Inl e, st1)
         | (Inr False, st1) \<Rightarrow> (Inr (), st1)
         | (Inr True, st1) \<Rightarrow>
             (let activationContext = \<lparr>tab = t, tabId = own_prop t ''id''\<rparr> in
              case activateContentScript br activationContext (scriptId opts) st1 of
                (Inl e, st2) \<Rightarrow> (Inl e, st2)
              | (Inr True, st2) \<Rightarrow> (Inr (), st2)
              | (Inr False, st2) \<Rightarrow> inject_then_activate br opts activationContext st2)))"


section \<open>Controller: setup\<close>

datatype 'w setup_arg =
    ScriptString string
  | ScriptStrings "string list"
  | SetupOptions "'w options"

text \<open>
  What \<open>setupContentScriptActivation\<close> leaves behind: the listener it added to
  \<open>browser.action.onClicked\<close>, if any, and the function it returned, if any.
\<close>

record 'w setup_result =
  onClicked_listener :: "(obj \<Rightarrow> 'w run \<Rightarrow> (error + unit) \<times> 'w run) option"
  returned :: "(obj \<Rightarrow> 'w run \<Rightarrow> (error + unit) \<times> 'w run) option"

definition resolve_options :: "'w setup_arg \<Rightarrow> 'w options" where
  "resolve_options arg = (case arg of
       ScriptString s \<Rightarrow>
         \<lparr>filterTab = None,
          inject = InjectOptions \<lparr>beforeInjection = None, afterInjection = None,
                                  scripts = One (Str s), styles = None\<rparr>,
          scriptId = None, injectOnClick = None\<rparr>
     | ScriptStrings xs \<Rightarrow>
         \<lparr>filterTab = None,
          inject = InjectOptions \<lparr>beforeInjection = None, afterInjection = None,
                                  scripts = Many (map Str xs), styles = None\<rparr>,
          scriptId = None, injectOnClick = None\<rparr>
     | SetupOptions opts \<Rightarrow> opts)"

text \<open>
  Lines 199 and 200: \<open>if (injectOnClick) browser.action.onClicked.addListener(activate);
  else return activate;\<close> where \<open>injectOnClick\<close> is the option as it was given
  (\<open>undefined\<close> when it was not).
\<close>

definition setupContentScriptActivation :: "'w browser \<Rightarrow> 'w setup_arg \<Rightarrow> 'w setup_result" where
  "setupContentScriptActivation br arg =
     (let resolvedOptions = resolve_options arg in
      if truthy (case injectOnClick resolvedOptions of None \<Rightarrow> JUndefined | Some b \<Rightarrow> JBool b)
      then \<lparr>onClicked_listener = Some (activate br resolvedOptions), returned = None\<rparr>
      else \<lparr>onClicked_listener = None, returned = Some (activate br resolvedOptions)\<rparr>)"


section \<open>Hosts for the scenarios\<close>

text \<open>
  A tab in which nothing listens: every message sent to it is rejected, and the injection
  capability accepts whatever it is given.
\<close>

definition no_receiver :: error where
  "no_receiver = Thrown (JStr ''Could not establish connection. Receiving end does not exist.'')"

definition cold_host :: "unit browser" where
  "cold_host =
     \<lparr>tabs_sendMessage = (\<lambda>tid message w. (Inl no_receiver, w)),
      scripting_executeScript = (\<lambda>arg w. (Inr (JArr []), w)),
      scripting_insertCSS = (\<lambda>arg w. (Inr JUndefined, w))\<rparr>"

fun responses :: "agent_event list \<Rightarrow> jsval list" where
  "responses [] = []"
| "responses (SendResponse m # es) = m # responses es"
| "responses (OnActivation c s r # es) = responses es"

fun activations :: "agent_event list \<Rightarrow> (jsval \<times> jsval) list" where
  "activations [] = []"
| "activations (OnActivation c s r # es) = (c, s) # activations es"
| "activations (SendResponse m # es) = activations es"

text \<open>
  A tab in which one agent listens: a message sent to the tab is handed to the agent's
  listener, and the sender gets the first response the listener gave to it; the message
  fails when the listener gave none. The world is the agent's page.
\<close>

definition agent_host ::
  "(jsval \<Rightarrow> 'p page \<Rightarrow> (error + unit) \<times> 'p page) \<Rightarrow> ('p page) browser" where
  "agent_host listener =
     \<lparr>tabs_sendMessage = (\<lambda>tid message pg.
        (case listener message pg of
           (r, pg') \<Rightarrow>
             (case responses (drop (length (fst pg)) (fst pg')) of
                [] \<Rightarrow> (Inl no_receiver, pg')
              | m # ms \<Rightarrow> (Inr m, pg')))),
      scripting_executeScript = (\<lambda>arg pg. (Inr (JArr []), pg)),
      scripting_insertCSS = (\<lambda>arg pg. (Inr JUndefined, pg))\<rparr>"


section \<open>Reading a run\<close>

text \<open>
  The kinds of events, whether an event records a call that threw or was rejected, and the
  condition of step 4 of the controller: a probe succeeds when its response is an
  activation-success message whose script id is the configured one.
\<close>

fun is_send :: "event \<Rightarrow> bool" where
  "is_send (SendMessage tid m r) = True"
| "is_send e = False"

fun is_dispatch :: "event \<Rightarrow> bool" where
  "is_dispatch (ExecuteScript a r) = True"
| "is_dispatch (InsertCSS a r) = True"
| "is_dispatch e = False"

fun failed :: "event \<Rightarrow> bool" where
  "failed (FilterTab t r) = isl r"
| "failed (SendMessage tid m r) = isl r"
| "failed (BeforeInjection c r) = isl r"
| "failed (ExecuteScript a r) = isl r"
| "failed (InsertCSS a r) = isl r"
| "failed (AfterInjection c r) = isl r"

definition probe_succeeded :: "string option \<Rightarrow> error + jsval \<Rightarrow> bool" where
  "probe_succeeded sid res = (case res of
       Inl e \<Rightarrow> False
     | Inr response \<Rightarrow>
         isActivationSuccessMessage response = Inr True
         \<and> js_get response ''scriptId'' = Inr (of_opt sid))"

definition request_of :: "activation_context \<Rightarrow> jsval" where
  "request_of c = createRequestActivationMessage (context_val c) None"

fun is_filter :: "event \<Rightarrow> bool" where
  "is_filter (FilterTab t r) = True"
| "is_filter e = False"

fun is_before :: "event \<Rightarrow> bool" where
  "is_before (BeforeInjection c r) = True"
| "is_before e = False"

fun is_after :: "event \<Rightarrow> bool" where
  "is_after (AfterInjection c r) = True"
| "is_after e = False"

definition script_plan :: "'w inject_options \<Rightarrow> obj list" where
  "script_plan ro = (if given (scripts ro) then injections (scripts ro) else [])"

definition style_plan :: "'w inject_options \<Rightarrow> obj list" where
  "style_plan ro = (case styles ro of
       None \<Rightarrow> []
     | Some sty \<Rightarrow> if given sty then injections sty else [])"

definition injection_events :: "jsval \<Rightarrow> 'w inject_options \<Rightarrow> (error + jsval) list \<Rightarrow> event list" where
  "injection_events tid ro rs =
     map2 (\<lambda>x r. ExecuteScript (with_target tid x) r) (script_plan ro)
          (take (length (script_plan ro)) rs)
     @ map2 (\<lambda>x r. InsertCSS (with_target tid x) r) (style_plan ro)
          (drop (length (script_plan ro)) rs)"

text \<open>The outcome of an injection, and the arguments of the injections of a run.\<close>

fun dispatch_outcome :: "event \<Rightarrow> (error + jsval) option" where
  "dispatch_outcome (ExecuteScript a r) = Some r"
| "dispatch_outcome (InsertCSS a r) = Some r"
| "dispatch_outcome e = None"

fun script_calls :: "event list \<Rightarrow> jsval list" where
  "script_calls [] = []"
| "script_calls (ExecuteScript a r # es) = a # script_calls es"
| "script_calls (e # es) = script_calls es"

fun style_calls :: "event list \<Rightarrow> jsval list" where
  "style_calls [] = []"
| "style_calls (InsertCSS a r # es) = a # style_calls es"
| "style_calls (e # es) = style_calls es"

text \<open>
  The condition of section 4.3 of the specification, in its words: the message is a
  well-formed activation request and its script id is strictly equal to the agent's.
\<close>

definition accepts :: "string option \<Rightarrow> jsval \<Rightarrow> bool" where
  "accepts sid message =
     (isRequestActivationMessage message = Inr True
      \<and> js_get message ''scriptId'' = Inr (of_opt sid))"


section \<open>Concrete inputs\<close>

text \<open>A tab with an id, its context, and the injection argument for a list of files.\<close>

definition tab1 :: obj where
  "tab1 = [(''id'', JNum 1), (''url'', JStr ''https://example.org/'')]"

definition tab1_context :: activation_context where
  "tab1_context = \<lparr>tab = tab1, tabId = JNum 1\<rparr>"

definition files_injection :: "jsval \<Rightarrow> string list \<Rightarrow> jsval" where
  "files_injection tid fs =
     JObj [(''target'', JObj [(''tabId'', tid)]), (''files'', JArr (map JStr fs))]"

text \<open>Callbacks and hooks: one that counts its calls, one that throws, a hook that returns.\<close>

definition counting_callback :: "nat callback" where
  "counting_callback c s n = (Inr (), Suc n)"

definition throwing_callback :: "nat callback" where
  "throwing_callback c s n = (Inl (Thrown (JStr ''boom'')), n)"

definition ok_hook :: "'w hook" where
  "ok_hook ic w = (Inr (), w)"

text \<open>
  The options of the scenario with \<open>scripts = ["a.js"]\<close> and
  \<open>styles = ["b.css"]\<close>, and the options \<open>{ inject: "content-script.js",
  scriptId }\<close>.
\<close>

definition scenario_options :: "'w hook \<Rightarrow> 'w hook \<Rightarrow> string option \<Rightarrow> 'w options" where
  "scenario_options hb ha sid =
     \<lparr>filterTab = None,
      inject = InjectOptions
        \<lparr>beforeInjection = Some hb, afterInjection = Some ha,
         scripts = Many [Str ''a.js''], styles = Some (Many [Str ''b.css''])\<rparr>,
      scriptId = sid, injectOnClick = Some True\<rparr>"

definition tagged_options :: "string option \<Rightarrow> 'w options" where
  "tagged_options sid =
     \<lparr>filterTab = None, inject = InjectString ''content-script.js'', scriptId = sid,
      injectOnClick = Some True\<rparr>"

text \<open>A host on which nothing listens and script injection is refused.\<close>

definition access_denied :: error where
  "access_denied = Thrown (JStr ''Cannot access contents of the page'')"

definition rejecting_host :: "unit browser" where
  "rejecting_host =
     \<lparr>tabs_sendMessage = (\<lambda>tid message w. (Inl no_receiver, w)),
      scripting_executeScript = (\<lambda>arg w. (Inl access_denied, w)),
      scripting_insertCSS = (\<lambda>arg w. (Inr JUndefined, w))\<rparr>"



text \<open>The runs of these inputs.\<close>

definition cold_events :: "event list" where
  "cold_events =
     [SendMessage (JNum 1) (request_of tab1_context) (Inl no_receiver),
      BeforeInjection (context_val tab1_context) (Inr ()),
      ExecuteScript (files_injection (JNum 1) [''a.js'']) (Inr (JArr [])),
      InsertCSS (files_injection (JNum 1) [''b.css'']) (Inr JUndefined),
      AfterInjection (context_val tab1_context) (Inr ()),
      SendMessage (JNum 1) (request_of tab1_context) (Inl no_receiver)]"

definition rejected_events :: "event list" where
  "rejected_events =
     [SendMessage (JNum 1) (request_of tab1_context) (Inl no_receiver),
      BeforeInjection (context_val tab1_context) (Inr ()),
      ExecuteScript (files_injection (JNum 1) [''a.js'']) (Inl access_denied),
      InsertCSS (files_injection (JNum 1) [''b.css'']) (Inr JUndefined)]"

definition live_events :: "event list" where
  "live_events =
     [SendMessage (JNum 1) (request_of tab1_context)
        (Inr (createActivationSuccessMessage None))]"


section \<open>Properties of the phases\<close>

lemma strict_eq_of_opt: "strict_eq v (of_opt s) = (v = of_opt s)"
  by (cases v; cases s) (auto simp: strict_eq_def of_opt_def)

lemma success_message_has_props:
  "isActivationSuccessMessage response = Inr True \<Longrightarrow> \<exists>v. js_get response k = Inr v"
  by (cases response) (simp_all add: isActivationSuccessMessage_def js_in_def js_get_def)

lemma send_request_eq:
  "send_request br c sid st =
     (case tabs_sendMessage br (tabId c) (request_of c) (snd st) of
        (res, w) \<Rightarrow>
          ((case res of
              Inl e \<Rightarrow> Inl e
            | Inr response \<Rightarrow>
                (case isActivationSuccessMessage response of
                   Inl e \<Rightarrow> Inl e
                 | Inr False \<Rightarrow> Inr False
                 | Inr True \<Rightarrow> Inr (probe_succeeded sid res))),
           (fst st @ [SendMessage (tabId c) (request_of c) res], w)))"
proof -
  obtain res w where sm: "tabs_sendMessage br (tabId c) (request_of c) (snd st) = (res, w)"
    by (cases "tabs_sendMessage br (tabId c) (request_of c) (snd st)")
  show ?thesis
  proof (cases res)
    case (Inl e)
    with sm show ?thesis
      unfolding send_request_def request_of_def [symmetric] by (simp add: Let_def)
  next
    case (Inr response)
    show ?thesis
    proof (cases "isActivationSuccessMessage response")
      case (Inl e)
      with sm Inr show ?thesis
        unfolding send_request_def request_of_def [symmetric] by (simp add: Let_def)
    next
      case isr: (Inr b)
      show ?thesis
      proof (cases b)
        case False
        with sm Inr isr show ?thesis
          unfolding send_request_def request_of_def [symmetric] by (simp add: Let_def)
      next
        case True
        with isr have "isActivationSuccessMessage response = Inr True" by simp
        then obtain v where v: "js_get response ''scriptId'' = Inr v"
          using success_message_has_props by blast
        with sm Inr isr True show ?thesis
          unfolding send_request_def request_of_def [symmetric]
          by (simp add: Let_def probe_succeeded_def strict_eq_of_opt)
      qed
    qed
  qed
qed

lemma activateContentScript_eq:
  "activateContentScript br c sid st =
     (case tabs_sendMessage br (tabId c) (request_of c) (snd st) of
        (res, w) \<Rightarrow>
          (Inr (probe_succeeded sid res),
           (fst st @ [SendMessage (tabId c) (request_of c) res], w)))"
  unfolding activateContentScript_def send_request_eq
  by (auto simp: probe_succeeded_def split: prod.splits sum.splits bool.splits)

lemma dispatch_log:
  "dispatch api ev tid xs st = (rs, st') \<Longrightarrow>
     length rs = length xs \<and> fst st' = fst st @ map2 (\<lambda>x r. ev (with_target tid x) r) xs rs"
proof (induction xs arbitrary: st rs st')
  case Nil
  then show ?case by simp
next
  case (Cons x xs)
  obtain r w where a: "api (with_target tid x) (snd st) = (r, w)"
    by (cases "api (with_target tid x) (snd st)")
  obtain rs' st'' where d:
    "dispatch api ev tid xs (fst st @ [ev (with_target tid x) r], w) = (rs', st'')"
    by (cases "dispatch api ev tid xs (fst st @ [ev (with_target tid x) r], w)")
  from Cons.prems a d have eq: "rs = r # rs'" "st' = st''" by simp_all
  from Cons.IH [OF d] eq show ?case by simp
qed

lemma start_injections_log:
  assumes "start_injections br tid ro st = (rs, st')"
  shows "length rs = length (script_plan ro) + length (style_plan ro)
         \<and> fst st' = fst st @ injection_events tid ro rs"
proof -
  obtain rs1 st1 where s1:
    "(if given (scripts ro)
      then dispatch (scripting_executeScript br) ExecuteScript tid (injections (scripts ro)) st
      else ([], st)) = (rs1, st1)"
    by (cases "(if given (scripts ro)
      then dispatch (scripting_executeScript br) ExecuteScript tid (injections (scripts ro)) st
      else ([], st))")
  obtain rs2 st2 where s2:
    "(case styles ro of
        None \<Rightarrow> ([], st1)
      | Some sty \<Rightarrow>
          if given sty
          then dispatch (scripting_insertCSS br) InsertCSS tid (injections sty) st1
          else ([], st1)) = (rs2, st2)"
    by (cases "(case styles ro of
        None \<Rightarrow> ([], st1)
      | Some sty \<Rightarrow>
          if given sty
          then dispatch (scripting_insertCSS br) InsertCSS tid (injections sty) st1
          else ([], st1))")
  from assms s1 s2 have eq: "rs = rs1 @ rs2" "st' = st2"
    by (simp_all add: start_injections_def)
  from s1 have l1: "length rs1 = length (script_plan ro)
      \<and> fst st1 = fst st @ map2 (\<lambda>x r. ExecuteScript (with_target tid x) r) (script_plan ro) rs1"
    by (auto simp: script_plan_def dest: dispatch_log split: if_splits)
  from s2 have l2: "length rs2 = length (style_plan ro)
      \<and> fst st2 = fst st1 @ map2 (\<lambda>x r. InsertCSS (with_target tid x) r) (style_plan ro) rs2"
    by (auto simp: style_plan_def dest: dispatch_log split: if_splits option.splits)
  from eq l1 l2 show ?thesis by (simp add: injection_events_def)
qed

lemma promise_all_isl: "isl (promise_all rs) = (\<exists>r \<in> set rs. isl r)"
proof (induction rs)
  case Nil
  then show ?case by simp
next
  case (Cons r rs)
  then show ?case by (cases r) (auto split: sum.splits)
qed

lemma injection_events_dispatch: "list_all is_dispatch (injection_events tid ro rs)"
  by (auto simp: injection_events_def list_all_iff in_set_zip)

lemma injection_events_failed:
  assumes "length rs = length (script_plan ro) + length (style_plan ro)"
  shows "(\<exists>e \<in> set (injection_events tid ro rs). failed e) = (\<exists>r \<in> set rs. isl r)"
proof -
  let ?n = "length (script_plan ro)"
  have a: "map failed (map2 (\<lambda>x r. ExecuteScript (with_target tid x) r) (script_plan ro) (take ?n rs))
           = map isl (take ?n rs)"
    using assms by (intro nth_equalityI) simp_all
  have b: "map failed (map2 (\<lambda>x r. InsertCSS (with_target tid x) r) (style_plan ro) (drop ?n rs))
           = map isl (drop ?n rs)"
    using assms by (intro nth_equalityI) simp_all
  have "map failed (injection_events tid ro rs) = map isl (take ?n rs) @ map isl (drop ?n rs)"
    unfolding injection_events_def using a b by simp
  also have "\<dots> = map isl (take ?n rs @ drop ?n rs)" by (simp only: map_append)
  finally have "map failed (injection_events tid ro rs) = map isl rs" by simp
  then have "set (map failed (injection_events tid ro rs)) = set (map isl rs)" by simp
  then have "failed ` set (injection_events tid ro rs) = isl ` set rs" by simp
  then show ?thesis by blast
qed

lemma run_hook_log:
  assumes "run_hook h ev ic st = (r, st')"
  shows "(h = None \<and> r = Inr () \<and> st' = st)
         \<or> (h \<noteq> None \<and> fst st' = fst st @ [ev ic r])"
  using assms by (auto simp: run_hook_def split: option.splits prod.splits)

lemma run_filter_log:
  assumes "run_filter flt t st = (r, st')"
  shows "(flt = None \<and> r = Inr True \<and> st' = st)
         \<or> (\<exists>e. r = Inl e \<and> fst st' = fst st @ [FilterTab t (Inl e)])
         \<or> (\<exists>v. r = Inr (truthy v) \<and> fst st' = fst st @ [FilterTab t (Inr v)])"
  using assms by (auto simp: run_filter_def split: option.splits prod.splits sum.splits)


section \<open>Properties of the messages and of the agent\<close>

lemma of_opt_inject: "(of_opt a = of_opt b) = (a = b)"
  by (cases a; cases b) (simp_all add: of_opt_def)

lemma message_predicates:
  "isRequestActivationMessage (createRequestActivationMessage c s) = Inr True"
  "isActivationSuccessMessage (createRequestActivationMessage c s) = Inr False"
  "isActivationSuccessMessage (createActivationSuccessMessage s) = Inr True"
  "isRequestActivationMessage (createActivationSuccessMessage s) = Inr False"
  by (simp_all add: isRequestActivationMessage_def isActivationSuccessMessage_def
      createRequestActivationMessage_def createActivationSuccessMessage_def
      js_in_def js_get_def own_prop_def strict_eq_def KEY_def
      TYPE_REQUEST_ACTIVATION_def TYPE_ACTIVATION_SUCCESS_def)

lemma message_props:
  "js_get (createRequestActivationMessage c s) ''scriptId'' = Inr (of_opt s)"
  "js_get (createRequestActivationMessage c s) ''context'' = Inr c"
  "js_get (createActivationSuccessMessage s) ''scriptId'' = Inr (of_opt s)"
  by (simp_all add: createRequestActivationMessage_def createActivationSuccessMessage_def
      js_get_def own_prop_def KEY_def)

lemma listener_ignores:
  "\<not> accepts sid message \<Longrightarrow> snd (setupActivation cb sid message pg) = pg"
  by (auto simp: setupActivation_def accepts_def strict_eq_of_opt
      split: sum.splits bool.splits)

lemma listener_replies_without_callback:
  "accepts sid message \<Longrightarrow>
     setupActivation None sid message pg =
       (Inr (), (fst pg @ [SendResponse (createActivationSuccessMessage sid)], snd pg))"
  by (simp add: setupActivation_def accepts_def strict_eq_of_opt)

lemma listener_calls_back_and_replies:
  "accepts sid message \<Longrightarrow> js_get message ''context'' = Inr ctx \<Longrightarrow>
   f ctx (of_opt sid) (snd pg) = (Inr (), p') \<Longrightarrow>
     setupActivation (Some f) sid message pg =
       (Inr (), (fst pg @ [OnActivation ctx (of_opt sid) (Inr ()),
                           SendResponse (createActivationSuccessMessage sid)], p'))"
  by (simp add: setupActivation_def accepts_def strict_eq_of_opt)

lemma listener_callback_throws:
  "accepts sid message \<Longrightarrow> js_get message ''context'' = Inr ctx \<Longrightarrow>
   f ctx (of_opt sid) (snd pg) = (Inl e, p') \<Longrightarrow>
     setupActivation (Some f) sid message pg =
       (Inl e, (fst pg @ [OnActivation ctx (of_opt sid) (Inl e)], p'))"
  by (simp add: setupActivation_def accepts_def strict_eq_of_opt)

lemma accepted_message_has_props:
  "accepts sid message \<Longrightarrow> \<exists>v. js_get message k = Inr v"
  by (cases message)
    (simp_all add: accepts_def isRequestActivationMessage_def js_in_def js_get_def)

lemma accepts_request: "accepts sid (createRequestActivationMessage c t) = (t = sid)"
  by (auto simp: accepts_def message_predicates message_props of_opt_inject)

lemma setup_with_injectOnClick:
  "setupContentScriptActivation br (SetupOptions (opts\<lparr>injectOnClick := Some True\<rparr>)) =
     \<lparr>onClicked_listener = Some (activate br (opts\<lparr>injectOnClick := Some True\<rparr>)),
      returned = None\<rparr>"
  "setupContentScriptActivation br (SetupOptions (opts\<lparr>injectOnClick := Some False\<rparr>)) =
     \<lparr>onClicked_listener = None,
      returned = Some (activate br (opts\<lparr>injectOnClick := Some False\<rparr>))\<rparr>"
  by (simp_all add: setupContentScriptActivation_def resolve_options_def truthy_def)


section \<open>The shape of a run\<close>

text \<open>
  Every run of \<open>inject_then_activate\<close> and of \<open>activate\<close> has one of a
  few shapes, told apart by where it stopped.
\<close>

lemma promise_all_Inl: "promise_all rs = Inl e \<Longrightarrow> Inl e \<in> set rs"
proof (induction rs)
  case Nil
  then show ?case by simp
next
  case (Cons r rs)
  then show ?case by (cases r) (auto split: sum.splits)
qed

lemma injection_events_outcomes:
  assumes "length rs = length (script_plan ro) + length (style_plan ro)"
  shows "map dispatch_outcome (injection_events tid ro rs) = map Some rs"
proof -
  let ?n = "length (script_plan ro)"
  have a: "map dispatch_outcome
             (map2 (\<lambda>x r. ExecuteScript (with_target tid x) r) (script_plan ro) (take ?n rs))
           = map Some (take ?n rs)"
    using assms by (intro nth_equalityI) simp_all
  have b: "map dispatch_outcome
             (map2 (\<lambda>x r. InsertCSS (with_target tid x) r) (style_plan ro) (drop ?n rs))
           = map Some (drop ?n rs)"
    using assms by (intro nth_equalityI) simp_all
  have "map dispatch_outcome (injection_events tid ro rs)
        = map Some (take ?n rs) @ map Some (drop ?n rs)"
    unfolding injection_events_def using a b by simp
  also have "\<dots> = map Some (take ?n rs @ drop ?n rs)" by (simp only: map_append)
  finally show ?thesis by simp
qed

lemma inject_then_activate_cases:
  assumes run: "inject_then_activate br opts c st = (r, st')"
  obtains
    (before_failed) e where
      "r = Inl e"
      "fst st' = fst st @ [BeforeInjection (context_val c) (Inl e)]"
  | (injection_failed) e bs rs where
      "r = Inl e" "Inl e \<in> set rs"
      "bs = [] \<or> bs = [BeforeInjection (context_val c) (Inr ())]"
      "length rs = length (script_plan (resolve_inject (inject opts)))
                   + length (style_plan (resolve_inject (inject opts)))"
      "fst st' = fst st @ bs @ injection_events (tabId c) (resolve_inject (inject opts)) rs"
  | (after_failed) e bs rs where
      "r = Inl e" "\<forall>x \<in> set rs. \<not> isl x"
      "bs = [] \<or> bs = [BeforeInjection (context_val c) (Inr ())]"
      "length rs = length (script_plan (resolve_inject (inject opts)))
                   + length (style_plan (resolve_inject (inject opts)))"
      "fst st' = fst st @ bs @ injection_events (tabId c) (resolve_inject (inject opts)) rs
                 @ [AfterInjection (context_val c) (Inl e)]"
  | (reprobed) bs rs as res where
      "r = Inr ()" "\<forall>x \<in> set rs. \<not> isl x"
      "bs = [] \<or> bs = [BeforeInjection (context_val c) (Inr ())]"
      "as = [] \<or> as = [AfterInjection (context_val c) (Inr ())]"
      "length rs = length (script_plan (resolve_inject (inject opts)))
                   + length (style_plan (resolve_inject (inject opts)))"
      "fst st' = fst st @ bs @ injection_events (tabId c) (resolve_inject (inject opts)) rs @ as
                 @ [SendMessage (tabId c) (request_of c) res]"
proof -
  let ?ro = "resolve_inject (inject opts)"
  let ?ic = "context_val c"
  obtain r1 st1 where h1: "run_hook (beforeInjection ?ro) BeforeInjection ?ic st = (r1, st1)"
    by (cases "run_hook (beforeInjection ?ro) BeforeInjection ?ic st")
  show ?thesis
  proof (cases r1)
    case (Inl e)
    with h1 have "fst st1 = fst st @ [BeforeInjection ?ic (Inl e)]"
      using run_hook_log [OF h1] by auto
    moreover from run h1 Inl have "r = Inl e" "st' = st1"
      by (simp_all add: inject_then_activate_def Let_def)
    ultimately show ?thesis using before_failed by simp
  next
    case (Inr u)
    with h1 have "\<exists>bs. (bs = [] \<or> bs = [BeforeInjection ?ic (Inr ())]) \<and> fst st1 = fst st @ bs"
      using run_hook_log [OF h1] by auto
    then obtain bs where bs1: "bs = [] \<or> bs = [BeforeInjection ?ic (Inr ())]"
      and bs2: "fst st1 = fst st @ bs" by blast
    obtain rs st2 where h2: "start_injections br (tabId c) ?ro st1 = (rs, st2)"
      by (cases "start_injections br (tabId c) ?ro st1")
    from start_injections_log [OF h2]
    have len: "length rs = length (script_plan ?ro) + length (style_plan ?ro)"
      and log2: "fst st2 = fst st1 @ injection_events (tabId c) ?ro rs" by simp_all
    show ?thesis
    proof (cases "promise_all rs")
      case pe: (Inl e)
      then have ex: "Inl e \<in> set rs" by (rule promise_all_Inl)
      from run h1 Inr h2 pe have "r = Inl e" "st' = st2"
        by (simp_all add: inject_then_activate_def Let_def)
      with ex len log2 bs1 bs2 show ?thesis using injection_failed [of e rs bs] by simp
    next
      case pv: (Inr vs)
      then have "\<not> isl (promise_all rs)" by simp
      then have nex: "\<forall>x \<in> set rs. \<not> isl x" by (simp add: promise_all_isl)
      obtain r3 st3 where h3: "run_hook (afterInjection ?ro) AfterInjection ?ic st2 = (r3, st3)"
        by (cases "run_hook (afterInjection ?ro) AfterInjection ?ic st2")
      show ?thesis
      proof (cases r3)
        case ae: (Inl e)
        with h3 have "fst st3 = fst st2 @ [AfterInjection ?ic (Inl e)]"
          using run_hook_log [OF h3] by auto
        moreover from run h1 Inr h2 pv h3 ae have "r = Inl e" "st' = st3"
          by (simp_all add: inject_then_activate_def Let_def)
        ultimately show ?thesis
          using nex len log2 bs1 bs2 after_failed [of e rs bs] by simp
      next
        case au: (Inr u')
        with h3 have "\<exists>as. (as = [] \<or> as = [AfterInjection ?ic (Inr ())]) \<and> fst st3 = fst st2 @ as"
          using run_hook_log [OF h3] by auto
        then obtain as where as1: "as = [] \<or> as = [AfterInjection ?ic (Inr ())]"
          and as2: "fst st3 = fst st2 @ as" by blast
        obtain res w where sm: "tabs_sendMessage br (tabId c) (request_of c) (snd st3) = (res, w)"
          by (cases "tabs_sendMessage br (tabId c) (request_of c) (snd st3)")
        from run h1 Inr h2 pv h3 au sm have "r = Inr ()"
          "st' = (fst st3 @ [SendMessage (tabId c) (request_of c) res], w)"
          by (simp_all add: inject_then_activate_def Let_def activateContentScript_eq)
        then have "r = Inr ()"
          "fst st' = fst st @ bs @ injection_events (tabId c) ?ro rs @ as
                     @ [SendMessage (tabId c) (request_of c) res]"
          using as2 log2 bs2 by simp_all
        with nex len as1 bs1 show ?thesis using reprobed [of rs bs as res] by simp
      qed
    qed
  qed
qed

lemma activate_cases:
  assumes run: "activate br opts t st = (r, st')"
  obtains
    (no_id) "\<not> truthy (own_prop t ''id'')" "r = Inr ()" "st' = st"
  | (filter_failed) e where
      "truthy (own_prop t ''id'')" "r = Inl e" "fst st' = fst st @ [FilterTab t (Inl e)]"
  | (filtered_out) v where
      "truthy (own_prop t ''id'')" "\<not> truthy v" "r = Inr ()"
      "fst st' = fst st @ [FilterTab t (Inr v)]"
  | (active) fs res where
      "truthy (own_prop t ''id'')"
      "fs = [] \<or> (\<exists>v. fs = [FilterTab t (Inr v)])"
      "probe_succeeded (scriptId opts) res" "r = Inr ()"
      "fst st' = fst st @ fs
                 @ [SendMessage (own_prop t ''id'')
                      (request_of \<lparr>tab = t, tabId = own_prop t ''id''\<rparr>) res]"
  | (inject) fs res st2 where
      "truthy (own_prop t ''id'')"
      "fs = [] \<or> (\<exists>v. fs = [FilterTab t (Inr v)])"
      "\<not> probe_succeeded (scriptId opts) res"
      "fst st2 = fst st @ fs
                 @ [SendMessage (own_prop t ''id'')
                      (request_of \<lparr>tab = t, tabId = own_prop t ''id''\<rparr>) res]"
      "inject_then_activate br opts \<lparr>tab = t, tabId = own_prop t ''id''\<rparr> st2 = (r, st')"
proof (cases "truthy (own_prop t ''id'')")
  case False
  with run show ?thesis using no_id by (simp add: activate_def)
next
  case True
  let ?c = "\<lparr>tab = t, tabId = own_prop t ''id''\<rparr>"
  obtain rf st1 where hf: "run_filter (filterTab opts) t st = (rf, st1)"
    by (cases "run_filter (filterTab opts) t st")
  show ?thesis
  proof (cases rf)
    case (Inl e)
    with hf have "fst st1 = fst st @ [FilterTab t (Inl e)]"
      using run_filter_log [OF hf] by auto
    moreover from run True hf Inl have "r = Inl e" "st' = st1"
      by (simp_all add: activate_def)
    ultimately show ?thesis using True filter_failed by simp
  next
    case (Inr b)
    show ?thesis
    proof (cases b)
      case False
      with hf Inr have "\<exists>v. \<not> truthy v \<and> fst st1 = fst st @ [FilterTab t (Inr v)]"
        using run_filter_log [OF hf] by auto
      moreover from run True hf Inr False have "r = Inr ()" "st' = st1"
        by (simp_all add: activate_def)
      ultimately show ?thesis using True filtered_out by auto
    next
      case pass: True
      with hf Inr have "\<exists>fs. (fs = [] \<or> (\<exists>v. fs = [FilterTab t (Inr v)])) \<and> fst st1 = fst st @ fs"
        using run_filter_log [OF hf] by auto
      then obtain fs where fs1: "fs = [] \<or> (\<exists>v. fs = [FilterTab t (Inr v)])"
        and fs2: "fst st1 = fst st @ fs" by blast
      obtain res w where sm:
        "tabs_sendMessage br (own_prop t ''id'') (request_of ?c) (snd st1) = (res, w)"
        by (cases "tabs_sendMessage br (own_prop t ''id'') (request_of ?c) (snd st1)")
      let ?st2 = "(fst st1 @ [SendMessage (own_prop t ''id'') (request_of ?c) res], w)"
      have probe: "activateContentScript br ?c (scriptId opts) st1
                   = (Inr (probe_succeeded (scriptId opts) res), ?st2)"
        using sm by (simp add: activateContentScript_eq)
      show ?thesis
      proof (cases "probe_succeeded (scriptId opts) res")
        case ok: True
        from run True hf Inr pass probe ok have "r = Inr ()" "st' = ?st2"
          by (simp_all add: activate_def Let_def)
        with True fs1 fs2 ok show ?thesis using active [of fs res] by simp
      next
        case ko: False
        from run True hf Inr pass probe ko
        have "inject_then_activate br opts ?c ?st2 = (r, st')"
          by (simp add: activate_def Let_def)
        with True fs1 fs2 ko show ?thesis using inject [of fs res ?st2] by simp
      qed
    qed
  qed
qed

lemma script_calls_append: "script_calls (xs @ ys) = script_calls xs @ script_calls ys"
  by (induction xs rule: script_calls.induct) simp_all

lemma style_calls_append: "style_calls (xs @ ys) = style_calls xs @ style_calls ys"
  by (induction xs rule: style_calls.induct) simp_all

lemma calls_of_script_events:
  "length rs = length xs \<Longrightarrow>
     script_calls (map2 (\<lambda>x r. ExecuteScript (f x) r) xs rs) = map f xs
     \<and> style_calls (map2 (\<lambda>x r. ExecuteScript (f x) r) xs rs) = []"
  by (induction xs rs rule: list_induct2') simp_all

lemma calls_of_style_events:
  "length rs = length xs \<Longrightarrow>
     style_calls (map2 (\<lambda>x r. InsertCSS (f x) r) xs rs) = map f xs
     \<and> script_calls (map2 (\<lambda>x r. InsertCSS (f x) r) xs rs) = []"
  by (induction xs rs rule: list_induct2') simp_all

lemma injection_events_calls:
  assumes "length rs = length (script_plan ro) + length (style_plan ro)"
  shows "script_calls (injection_events tid ro rs) = map (with_target tid) (script_plan ro)"
    and "style_calls (injection_events tid ro rs) = map (with_target tid) (style_plan ro)"
proof -
  let ?n = "length (script_plan ro)"
  have a: "length (take ?n rs) = length (script_plan ro)" using assms by simp
  have b: "length (drop ?n rs) = length (style_plan ro)" using assms by simp
  show "script_calls (injection_events tid ro rs) = map (with_target tid) (script_plan ro)"
    unfolding injection_events_def script_calls_append
    using calls_of_script_events [OF a, of "with_target tid"]
      calls_of_style_events [OF b, of "with_target tid"] by simp
  show "style_calls (injection_events tid ro rs) = map (with_target tid) (style_plan ro)"
    unfolding injection_events_def style_calls_append
    using calls_of_script_events [OF a, of "with_target tid"]
      calls_of_style_events [OF b, of "with_target tid"] by simp
qed

lemma injection_events_kinds:
  "filter is_send (injection_events tid ro rs) = []"
  "filter is_after (injection_events tid ro rs) = []"
  "filter is_before (injection_events tid ro rs) = []"
  "SendMessage a m x \<notin> set (injection_events tid ro rs)"
  by (auto simp: injection_events_def filter_empty_conv in_set_zip)

lemma injection_events_all_dispatch:
  "filter is_dispatch (injection_events tid ro rs) = injection_events tid ro rs"
  using injection_events_dispatch [of tid ro rs] by (simp add: filter_id_conv list_all_iff)

lemma injection_events_failed_elem:
  assumes "length rs = length (script_plan ro) + length (style_plan ro)"
    and "x \<in> set (injection_events tid ro rs)" and "failed x"
  shows "\<exists>r \<in> set rs. isl r"
  using injection_events_failed [OF assms(1), of tid] assms(2,3) by blast

lemma injection_events_outcome_elem:
  assumes "length rs = length (script_plan ro) + length (style_plan ro)"
    and "r \<in> set rs"
  shows "\<exists>y \<in> set (injection_events tid ro rs). dispatch_outcome y = Some r"
proof -
  from assms(2) have "Some r \<in> set (map Some rs)" by simp
  then have "Some r \<in> set (map dispatch_outcome (injection_events tid ro rs))"
    using injection_events_outcomes [OF assms(1), of tid] by simp
  then show ?thesis by auto
qed

lemma filter_events_facts:
  assumes "fs = [] \<or> (\<exists>v. fs = [FilterTab t (Inr v)])"
  shows "script_calls fs = []" "style_calls fs = []" "filter is_send fs = []"
    "filter is_after fs = []" "filter is_dispatch fs = []" "filter is_before fs = []"
  using assms by auto

lemma before_events_facts:
  assumes "bs = [] \<or> bs = [BeforeInjection ic (Inr ())]"
  shows "script_calls bs = []" "style_calls bs = []" "filter is_send bs = []"
    "filter is_after bs = []" "filter is_dispatch bs = []"
  using assms by auto

lemma after_events_facts:
  assumes "as = [] \<or> as = [AfterInjection ic (Inr ())]"
  shows "script_calls as = []" "style_calls as = []" "filter is_send as = []"
    "filter is_dispatch as = []" "filter is_before as = []"
  using assms by auto


section \<open>Injections and concrete runs\<close>

lemma sort_sources:
  "foldl sort_source acc xs =
     (fst acc @ [f. Str f \<leftarrow> xs], snd acc @ [ob. Opts ob \<leftarrow> xs])"
proof (induction xs arbitrary: acc)
  case Nil
  then show ?case by simp
next
  case (Cons x xs)
  then show ?case by (cases x) (simp_all add: sort_source_def)
qed

lemma injections_Many:
  "injections (Many xs) =
     [ob. Opts ob \<leftarrow> xs]
     @ (if [f. Str f \<leftarrow> xs] = [] then []
        else [[(''files'', JArr (map JStr [f. Str f \<leftarrow> xs]))]])"
  by (simp add: injections_def sort_sources)

lemma with_target_files:
  "with_target tid [(''files'', v)] = JObj [(''target'', JObj [(''tabId'', tid)]), (''files'', v)]"
  by (simp add: with_target_def spread_def)

lemma scenario_run:
  assumes id: "truthy (own_prop t ''id'')"
    and flt: "filterTab opts = None"
    and inj: "inject opts = InjectOptions
        \<lparr>beforeInjection = Some hb, afterInjection = Some ha,
         scripts = Many [Str ''a.js''], styles = Some (Many [Str ''b.css''])\<rparr>"
    and sm1: "tabs_sendMessage br (own_prop t ''id'')
                (request_of \<lparr>tab = t, tabId = own_prop t ''id''\<rparr>) w = (Inl e, w1)"
    and hb: "hb (context_val \<lparr>tab = t, tabId = own_prop t ''id''\<rparr>) w1 = (Inr (), w2)"
    and ex: "scripting_executeScript br (files_injection (own_prop t ''id'') [''a.js'']) w2
             = (Inr v1, w3)"
    and css: "scripting_insertCSS br (files_injection (own_prop t ''id'') [''b.css'']) w3
             = (Inr v2, w4)"
    and ha: "ha (context_val \<lparr>tab = t, tabId = own_prop t ''id''\<rparr>) w4 = (Inr (), w5)"
    and sm2: "tabs_sendMessage br (own_prop t ''id'')
                (request_of \<lparr>tab = t, tabId = own_prop t ''id''\<rparr>) w5 = (res2, w6)"
  shows "activate br opts t ([], w) =
     (Inr (),
      ([SendMessage (own_prop t ''id'') (request_of \<lparr>tab = t, tabId = own_prop t ''id''\<rparr>) (Inl e),
        BeforeInjection (context_val \<lparr>tab = t, tabId = own_prop t ''id''\<rparr>) (Inr ()),
        ExecuteScript (files_injection (own_prop t ''id'') [''a.js'']) (Inr v1),
        InsertCSS (files_injection (own_prop t ''id'') [''b.css'']) (Inr v2),
        AfterInjection (context_val \<lparr>tab = t, tabId = own_prop t ''id''\<rparr>) (Inr ()),
        SendMessage (own_prop t ''id'') (request_of \<lparr>tab = t, tabId = own_prop t ''id''\<rparr>) res2],
       w6))"
proof -
  let ?c = "\<lparr>tab = t, tabId = own_prop t ''id''\<rparr>"
  let ?ro = "\<lparr>beforeInjection = Some hb, afterInjection = Some ha,
         scripts = Many [Str ''a.js''], styles = Some (Many [Str ''b.css''])\<rparr>"
  let ?e1 = "SendMessage (own_prop t ''id'') (request_of ?c) (Inl e)"
  let ?e2 = "BeforeInjection (context_val ?c) (Inr ())"
  let ?e3 = "ExecuteScript (files_injection (own_prop t ''id'') [''a.js'']) (Inr v1)"
  let ?e4 = "InsertCSS (files_injection (own_prop t ''id'') [''b.css'']) (Inr v2)"
  let ?e5 = "AfterInjection (context_val ?c) (Inr ())"
  have p1: "activateContentScript br ?c (scriptId opts) ([], w) = (Inr False, ([?e1], w1))"
    using sm1 by (simp add: activateContentScript_eq probe_succeeded_def)
  have h1: "run_hook (beforeInjection ?ro) BeforeInjection (context_val ?c) ([?e1], w1)
            = (Inr (), ([?e1, ?e2], w2))"
    using hb by (simp add: run_hook_def)
  have s1: "start_injections br (tabId ?c) ?ro ([?e1, ?e2], w2)
            = ([Inr v1, Inr v2], ([?e1, ?e2, ?e3, ?e4], w4))"
    using ex css
    by (simp add: start_injections_def given_def injections_Many with_target_files
        files_injection_def)
  have h2: "run_hook (afterInjection ?ro) AfterInjection (context_val ?c) ([?e1, ?e2, ?e3, ?e4], w4)
            = (Inr (), ([?e1, ?e2, ?e3, ?e4, ?e5], w5))"
    using ha by (simp add: run_hook_def)
  have p2: "activateContentScript br ?c (scriptId opts) ([?e1, ?e2, ?e3, ?e4, ?e5], w5)
            = (Inr (probe_succeeded (scriptId opts) res2),
               ([?e1, ?e2, ?e3, ?e4, ?e5, SendMessage (own_prop t ''id'') (request_of ?c) res2], w6))"
    using sm2 by (simp add: activateContentScript_eq)
  have "inject_then_activate br opts ?c ([?e1], w1)
        = (Inr (), ([?e1, ?e2, ?e3, ?e4, ?e5, SendMessage (own_prop t ''id'') (request_of ?c) res2], w6))"
    unfolding inject_then_activate_def inj
    by (simp only: resolve_inject_def inject_arg.case Let_def h1 s1 h2 p2 prod.case sum.case
        promise_all.simps)
  then show ?thesis
    using id flt p1 by (simp add: activate_def run_filter_def Let_def)
qed

lemma tab1_id: "own_prop tab1 ''id'' = JNum 1" "truthy (own_prop tab1 ''id'')"
  by (simp_all add: tab1_def own_prop_def truthy_def)

lemma listener_ignores_request:
  "t \<noteq> sid \<Longrightarrow> setupActivation cb sid (createRequestActivationMessage c t) pg = (Inr (), pg)"
  by (simp add: setupActivation_def message_predicates message_props strict_eq_of_opt
      of_opt_inject)

lemma agent_host_ignored:
  "t \<noteq> sid \<Longrightarrow>
     tabs_sendMessage (agent_host (setupActivation cb sid)) tid
       (createRequestActivationMessage c t) pg = (Inl no_receiver, pg)"
  by (simp add: agent_host_def listener_ignores_request)

lemma agent_host_answered:
  "f c (of_opt sid) (snd pg) = (Inr (), p') \<Longrightarrow>
     tabs_sendMessage (agent_host (setupActivation (Some f) sid)) tid
       (createRequestActivationMessage c sid) pg =
       (Inr (createActivationSuccessMessage sid),
        (fst pg @ [OnActivation c (of_opt sid) (Inr ()),
                   SendResponse (createActivationSuccessMessage sid)], p'))"
  by (simp add: agent_host_def listener_calls_back_and_replies accepts_request message_props)

lemma agent_host_injections:
  "scripting_executeScript (agent_host l) a pg = (Inr (JArr []), pg)"
  "scripting_insertCSS (agent_host l) a pg = (Inr JUndefined, pg)"
  by (simp_all add: agent_host_def)

lemma injections_One_Str: "f \<noteq> [] \<Longrightarrow> injections (One (Str f)) = [[(''files'', JArr [JStr f])]]"
  by (simp add: injections_def sort_source_def)

lemma cold_run:
  "activate cold_host (scenario_options ok_hook ok_hook sid) tab1 ([], ())
     = (Inr (), (cold_events, ()))"
  unfolding cold_events_def tab1_context_def tab1_id(1) [symmetric]
  by (rule scenario_run [where ?w1.0 = "()" and ?w2.0 = "()" and ?w3.0 = "()" and ?w4.0 = "()"
        and ?w5.0 = "()" and hb = ok_hook and ha = ok_hook])
    (simp_all add: tab1_id(2) scenario_options_def cold_host_def ok_hook_def)

lemma rejected_run:
  "activate rejecting_host (scenario_options ok_hook ok_hook sid) tab1 ([], ())
     = (Inl access_denied, (rejected_events, ()))"
proof -
  let ?br = "rejecting_host"
  let ?c = "tab1_context"
  let ?e1 = "SendMessage (JNum 1) (request_of ?c) (Inl no_receiver)"
  let ?e2 = "BeforeInjection (context_val ?c) (Inr ())"
  have p: "activateContentScript ?br ?c sid ([], ()) = (Inr False, ([?e1], ()))"
    by (simp add: activateContentScript_eq probe_succeeded_def rejecting_host_def
        tab1_context_def)
  have s: "start_injections ?br (JNum 1)
             \<lparr>beforeInjection = Some ok_hook, afterInjection = Some ok_hook,
              scripts = Many [Str ''a.js''], styles = Some (Many [Str ''b.css''])\<rparr>
             ([?e1, ?e2], ())
           = ([Inl access_denied, Inr JUndefined], (rejected_events, ()))"
    by (simp add: start_injections_def given_def injections_Many with_target_files
        files_injection_def rejecting_host_def rejected_events_def)
  have "inject_then_activate ?br (scenario_options ok_hook ok_hook sid) ?c ([?e1], ())
        = (Inl access_denied, (rejected_events, ()))"
    using s
    by (simp add: inject_then_activate_def scenario_options_def Let_def run_hook_def
        resolve_inject_def ok_hook_def tab1_context_def)
  then show ?thesis
    using p
    by (simp add: activate_def tab1_id truthy_def run_filter_def scenario_options_def Let_def
        tab1_context_def)
qed

lemma live_run:
  "activate (agent_host (setupActivation (Some counting_callback) None)) (tagged_options None)
     tab1 ([], ([], 0))
   = (Inr (),
      (live_events,
       ([OnActivation (context_val tab1_context) JUndefined (Inr ()),
         SendResponse (createActivationSuccessMessage None)], 1)))"
proof -
  let ?br = "agent_host (setupActivation (Some counting_callback) None)"
  have sm: "tabs_sendMessage ?br (JNum 1) (request_of tab1_context) ([], 0)
            = (Inr (createActivationSuccessMessage None),
               ([OnActivation (context_val tab1_context) JUndefined (Inr ()),
                 SendResponse (createActivationSuccessMessage None)], 1))"
    using agent_host_answered [of counting_callback "context_val tab1_context" None "([], 0)" 1
        "JNum 1"]
    by (simp add: request_of_def counting_callback_def of_opt_def)
  have ok: "probe_succeeded None (Inr (createActivationSuccessMessage None))"
    by (simp add: probe_succeeded_def message_predicates message_props)
  have "activateContentScript ?br tab1_context None ([], ([], 0))
        = (Inr True, (live_events,
             ([OnActivation (context_val tab1_context) JUndefined (Inr ()),
               SendResponse (createActivationSuccessMessage None)], 1)))"
    using sm ok by (simp add: activateContentScript_eq live_events_def tab1_context_def)
  then show ?thesis
    by (simp add: activate_def tab1_id truthy_def run_filter_def tagged_options_def Let_def
        tab1_context_def)
qed

lemma throwing_callback_gets_no_response:
  "setupActivation (Some throwing_callback) (Some ''x'')
     (createRequestActivationMessage (JNum 7) (Some ''x'')) ([], 0)
   = (Inl (Thrown (JStr ''boom'')),
      ([OnActivation (JNum 7) (JStr ''x'') (Inl (Thrown (JStr ''boom'')))], 0))"
  using listener_callback_throws
    [of "Some ''x''" "createRequestActivationMessage (JNum 7) (Some ''x'')" "JNum 7"
      throwing_callback "([], 0)" "Thrown (JStr ''boom'')" 0]
  by (simp add: accepts_request message_props throwing_callback_def of_opt_def)


section \<open>The claims\<close>

text \<open>
  Claim C1, as the code behaves. The controller and the agent are both set up with the same
  script id \<open>x\<close>, the agent is listening, and the tab is triggered. The request the
  controller sends carries no script id, so the agent ignores it: the first message gets no
  response, the script is injected, the second message gets no response either, and the
  agent's page is as it was (the callback is never called). The claim says that the first
  probe succeeds, that nothing is injected and that the callback is called once; this is
  what the README's section on multiple instances describes.
\<close>

theorem tagged_agent_is_never_reached:
  "activate (agent_host (setupActivation cb (Some x))) (tagged_options (Some x)) tab1 ([], pg) =
     (Inr (),
      ([SendMessage (JNum 1) (request_of \<lparr>tab = tab1, tabId = JNum 1\<rparr>) (Inl no_receiver),
        ExecuteScript (files_injection (JNum 1) [''content-script.js'']) (Inr (JArr [])),
        SendMessage (JNum 1) (request_of \<lparr>tab = tab1, tabId = JNum 1\<rparr>) (Inl no_receiver)],
       pg))"
proof -
  let ?br = "agent_host (setupActivation cb (Some x))"
  let ?c = "\<lparr>tab = tab1, tabId = JNum 1\<rparr>"
  let ?e1 = "SendMessage (JNum 1) (request_of ?c) (Inl no_receiver)"
  let ?e2 = "ExecuteScript (files_injection (JNum 1) [''content-script.js'']) (Inr (JArr []))"
  have sm: "tabs_sendMessage ?br (JNum 1) (request_of ?c) pg = (Inl no_receiver, pg)"
    unfolding request_of_def by (rule agent_host_ignored) simp
  have p: "activateContentScript ?br ?c (Some x) (l, pg)
           = (Inr False, (l @ [?e1], pg))" for l
    using sm by (simp add: activateContentScript_eq probe_succeeded_def)
  have s: "start_injections ?br (JNum 1) (resolve_inject (InjectString ''content-script.js''))
             ([?e1], pg) = ([Inr (JArr [])], ([?e1, ?e2], pg))"
    by (simp add: start_injections_def resolve_inject_def given_def injections_One_Str
        agent_host_injections with_target_files files_injection_def)
  have "inject_then_activate ?br (tagged_options (Some x)) ?c ([?e1], pg)
        = (Inr (), ([?e1, ?e2, ?e1], pg))"
    using s p [of "[?e1, ?e2]"]
    by (simp add: inject_then_activate_def tagged_options_def Let_def run_hook_def
        resolve_inject_def)
  then show ?thesis
    using p [of "[]"]
    by (simp add: activate_def tab1_id truthy_def run_filter_def tagged_options_def Let_def)
qed

text \<open>
  Claim C2, as the code behaves. When \<open>injectOnClick\<close> is not given (the two
  string shorthands, or an options object without it), \<open>setupContentScriptActivation\<close>
  adds no listener to \<open>browser.action.onClicked\<close> and returns \<open>activate\<close>:
  the option is read as it was given, and \<open>undefined\<close> is falsy. The claim and the
  option's documentation (\<open>@default true\<close>) say the listener is registered and
  nothing is returned.
\<close>

theorem setup_returns_activate_when_injectOnClick_is_omitted:
  "setupContentScriptActivation br (ScriptString s) =
     \<lparr>onClicked_listener = None,
      returned = Some (activate br (resolve_options (ScriptString s)))\<rparr>
   \<and> setupContentScriptActivation br (ScriptStrings xs) =
     \<lparr>onClicked_listener = None,
      returned = Some (activate br (resolve_options (ScriptStrings xs)))\<rparr>
   \<and> setupContentScriptActivation br (SetupOptions (opts\<lparr>injectOnClick := None\<rparr>)) =
     \<lparr>onClicked_listener = None,
      returned = Some (activate br (opts\<lparr>injectOnClick := None\<rparr>))\<rparr>"
  by (simp add: setupContentScriptActivation_def resolve_options_def truthy_def)

text \<open>
  Claim C3. Whatever the options (the configured script id among them), every message a
  trigger sends to the tab, the first probe and the one after the injection alike, is
  \<open>createRequestActivationMessage(context)\<close> for the context of that trigger, sent
  to the tab's id; its \<open>scriptId\<close> is \<open>undefined\<close>.
\<close>

theorem requests_never_carry_script_id:
  assumes "activate br opts t ([], w) = (r, (evs, w'))"
    and "SendMessage tid m res \<in> set evs"
  shows "tid = own_prop t ''id''
         \<and> m = createRequestActivationMessage
                 (context_val \<lparr>tab = t, tabId = own_prop t ''id''\<rparr>) None
         \<and> js_get m ''scriptId'' = Inr JUndefined"
proof -
  let ?c = "\<lparr>tab = t, tabId = own_prop t ''id''\<rparr>"
  have "tid = own_prop t ''id'' \<and> m = request_of ?c"
    using assms(1)
  proof (cases rule: activate_cases)
    case no_id
    with assms(2) show ?thesis by simp
  next
    case (filter_failed e)
    with assms(2) show ?thesis by simp
  next
    case (filtered_out v)
    with assms(2) show ?thesis by simp
  next
    case (active fs res')
    with assms(2) show ?thesis by auto
  next
    case (inject fs res' st2)
    from inject(5) show ?thesis
    proof (cases rule: inject_then_activate_cases)
      case (before_failed e)
      with inject(2,4) assms(2) show ?thesis by auto
    next
      case (injection_failed e bs rs)
      with inject(2,4) assms(2) show ?thesis by (auto simp: injection_events_kinds)
    next
      case (after_failed e bs rs)
      with inject(2,4) assms(2) show ?thesis by (auto simp: injection_events_kinds)
    next
      case (reprobed bs rs as res'')
      with inject(2,4) assms(2) show ?thesis by (auto simp: injection_events_kinds)
    qed
  qed
  then show ?thesis
    by (simp add: request_of_def message_props of_opt_def)
qed

text \<open>On a tab where nothing listens, with script id \<open>x\<close> configured.\<close>

theorem requests_never_carry_script_id_witness:
  "activate cold_host (scenario_options ok_hook ok_hook (Some ''x'')) tab1 ([], ())
     = (Inr (), (cold_events, ()))
   \<and> SendMessage (JNum 1) (request_of tab1_context) (Inl no_receiver) \<in> set cold_events
   \<and> request_of tab1_context
       = createRequestActivationMessage
           (context_val \<lparr>tab = tab1, tabId = own_prop tab1 ''id''\<rparr>) None
   \<and> js_get (request_of tab1_context) ''scriptId'' = Inr JUndefined"
proof -
  have run: "activate cold_host (scenario_options ok_hook ok_hook (Some ''x'')) tab1 ([], ())
     = (Inr (), (cold_events, ()))"
    by (rule cold_run)
  have mem: "SendMessage (JNum 1) (request_of tab1_context) (Inl no_receiver) \<in> set cold_events"
    by (simp add: cold_events_def)
  from requests_never_carry_script_id [OF run mem] run mem show ?thesis by blast
qed

text \<open>
  Claim C4, as stated, fails on a callback that throws: the request is accepted, the
  callback is called, the exception leaves the listener, and \<open>sendResponse\<close> is
  never called.
\<close>

theorem listener_reply_counterexample:
  "accepts (Some ''x'') (createRequestActivationMessage (JNum 7) (Some ''x''))
   \<and> activations (fst (snd (setupActivation (Some throwing_callback) (Some ''x'')
          (createRequestActivationMessage (JNum 7) (Some ''x'')) ([], 0))))
       = [(JNum 7, JStr ''x'')]
   \<and> responses (fst (snd (setupActivation (Some throwing_callback) (Some ''x'')
          (createRequestActivationMessage (JNum 7) (Some ''x'')) ([], 0)))) = []"
  by (simp add: throwing_callback_gets_no_response accepts_request)

text \<open>
  Claim C4, amended. The agent's listener, on any message. When the message is not an
  activation request, or its script id is not the agent's own (\<open>accepts\<close> is
  false; this covers a tagged request at an untagged agent and an untagged request at a
  tagged agent), the page is left as it was: no callback, no response. When the message is
  accepted, it has a context to read; without a callback, the listener responds once; with
  a callback that returns, the callback is called once with the message's context and the
  script id, and the listener then responds once; with a callback that throws, the
  callback is called once with the same arguments, the exception leaves the listener, and
  there is no response. The response is \<open>createActivationSuccessMessage(scriptId)\<close>:
  the success predicate holds of it and its script id is the agent's, so it is the
  response a controller with that script id takes as a successful probe. A request built
  by \<open>createRequestActivationMessage\<close> is accepted exactly when its script id
  equals the agent's.
\<close>

theorem listener_answers_accepted_requests:
  "(\<not> accepts sid message \<longrightarrow> snd (setupActivation cb sid message pg) = pg)
   \<and> (accepts sid message \<longrightarrow> (\<exists>v. js_get message ''context'' = Inr v))
   \<and> (accepts sid message \<longrightarrow> cb = None \<longrightarrow>
        setupActivation cb sid message pg =
          (Inr (), (fst pg @ [SendResponse (createActivationSuccessMessage sid)], snd pg)))
   \<and> (accepts sid message \<longrightarrow> cb = Some f \<longrightarrow> js_get message ''context'' = Inr ctx \<longrightarrow>
        f ctx (of_opt sid) (snd pg) = (Inr (), p') \<longrightarrow>
        setupActivation cb sid message pg =
          (Inr (), (fst pg @ [OnActivation ctx (of_opt sid) (Inr ()),
                              SendResponse (createActivationSuccessMessage sid)], p')))
   \<and> (accepts sid message \<longrightarrow> cb = Some f \<longrightarrow> js_get message ''context'' = Inr ctx \<longrightarrow>
        f ctx (of_opt sid) (snd pg) = (Inl e, p') \<longrightarrow>
        setupActivation cb sid message pg =
          (Inl e, (fst pg @ [OnActivation ctx (of_opt sid) (Inl e)], p')))
   \<and> isActivationSuccessMessage (createActivationSuccessMessage sid) = Inr True
   \<and> isRequestActivationMessage (createActivationSuccessMessage sid) = Inr False
   \<and> js_get (createActivationSuccessMessage sid) ''scriptId'' = Inr (of_opt sid)
   \<and> probe_succeeded sid (Inr (createActivationSuccessMessage sid))
   \<and> accepts sid (createRequestActivationMessage c t) = (t = sid)"
proof -
  have 1: "\<not> accepts sid message \<longrightarrow> snd (setupActivation cb sid message pg) = pg"
    using listener_ignores [of sid message cb pg] by blast
  have 2: "accepts sid message \<longrightarrow> (\<exists>v. js_get message ''context'' = Inr v)"
    using accepted_message_has_props [of sid message "''context''"] by blast
  have 3: "accepts sid message \<longrightarrow> cb = None \<longrightarrow>
        setupActivation cb sid message pg =
          (Inr (), (fst pg @ [SendResponse (createActivationSuccessMessage sid)], snd pg))"
    using listener_replies_without_callback [of sid message pg] by blast
  have 4: "accepts sid message \<longrightarrow> cb = Some f \<longrightarrow> js_get message ''context'' = Inr ctx \<longrightarrow>
        f ctx (of_opt sid) (snd pg) = (Inr (), p') \<longrightarrow>
        setupActivation cb sid message pg =
          (Inr (), (fst pg @ [OnActivation ctx (of_opt sid) (Inr ()),
                              SendResponse (createActivationSuccessMessage sid)], p'))"
    using listener_calls_back_and_replies [of sid message ctx f pg p'] by blast
  have 5: "accepts sid message \<longrightarrow> cb = Some f \<longrightarrow> js_get message ''context'' = Inr ctx \<longrightarrow>
        f ctx (of_opt sid) (snd pg) = (Inl e, p') \<longrightarrow>
        setupActivation cb sid message pg =
          (Inl e, (fst pg @ [OnActivation ctx (of_opt sid) (Inl e)], p'))"
    using listener_callback_throws [of sid message ctx f pg e p'] by blast
  have 6: "isActivationSuccessMessage (createActivationSuccessMessage sid) = Inr True"
    "isRequestActivationMessage (createActivationSuccessMessage sid) = Inr False"
    "js_get (createActivationSuccessMessage sid) ''scriptId'' = Inr (of_opt sid)"
    by (simp_all add: message_predicates message_props)
  have 7: "probe_succeeded sid (Inr (createActivationSuccessMessage sid))"
    by (simp add: probe_succeeded_def 6)
  have 8: "accepts sid (createRequestActivationMessage c t) = (t = sid)"
    by (rule accepts_request)
  from 1 2 3 4 5 6 7 8 show ?thesis by blast
qed

text \<open>
  An untagged request at an agent tagged \<open>x\<close>, a tagged request at an untagged agent, a
  string that is no request, and a matching request without a callback, with a callback
  that returns and with one that throws.
\<close>

theorem listener_answers_accepted_requests_witness:
  "snd (setupActivation (Some counting_callback) (Some ''x'')
          (createRequestActivationMessage (JNum 7) None) ([], 0)) = ([], 0)
   \<and> snd (setupActivation (Some counting_callback) None
          (createRequestActivationMessage (JNum 7) (Some ''x'')) ([], 0)) = ([], 0)
   \<and> snd (setupActivation (Some counting_callback) (Some ''x'') (JStr ''hello'') ([], 0)) = ([], 0)
   \<and> setupActivation None (Some ''x'')
          (createRequestActivationMessage (JNum 7) (Some ''x'')) ([], 0 :: nat) =
        (Inr (), ([SendResponse (createActivationSuccessMessage (Some ''x''))], 0))
   \<and> setupActivation (Some counting_callback) (Some ''x'')
          (createRequestActivationMessage (JNum 7) (Some ''x'')) ([], 0) =
        (Inr (), ([OnActivation (JNum 7) (JStr ''x'') (Inr ()),
                   SendResponse (createActivationSuccessMessage (Some ''x''))], 1))
   \<and> setupActivation (Some throwing_callback) (Some ''x'')
          (createRequestActivationMessage (JNum 7) (Some ''x'')) ([], 0) =
        (Inl (Thrown (JStr ''boom'')),
         ([OnActivation (JNum 7) (JStr ''x'') (Inl (Thrown (JStr ''boom'')))], 0))
   \<and> createActivationSuccessMessage (Some ''x'')
       = JObj [(''[content-script-activation]'', JStr ''activation-success''),
               (''scriptId'', JStr ''x'')]"
proof -
  have n1: "\<not> accepts (Some ''x'') (createRequestActivationMessage (JNum 7) None)"
    by (simp add: accepts_request)
  have n2: "\<not> accepts None (createRequestActivationMessage (JNum 7) (Some ''x''))"
    by (simp add: accepts_request)
  have n3: "\<not> accepts (Some ''x'') (JStr ''hello'')"
    by (simp add: accepts_def isRequestActivationMessage_def js_in_def)
  have y: "accepts (Some ''x'') (createRequestActivationMessage (JNum 7) (Some ''x''))"
    by (simp add: accepts_request)
  have c: "js_get (createRequestActivationMessage (JNum 7) (Some ''x'')) ''context'' = Inr (JNum 7)"
    by (simp add: message_props)
  have f: "counting_callback (JNum 7) (of_opt (Some ''x'')) (snd ([], 0)) = (Inr (), 1)"
    by (simp add: counting_callback_def)
  have g: "throwing_callback (JNum 7) (of_opt (Some ''x'')) (snd ([], 0))
           = (Inl (Thrown (JStr ''boom'')), 0)"
    by (simp add: throwing_callback_def)
  have m: "createActivationSuccessMessage (Some ''x'')
       = JObj [(''[content-script-activation]'', JStr ''activation-success''),
               (''scriptId'', JStr ''x'')]"
    by (simp add: createActivationSuccessMessage_def KEY_def TYPE_ACTIVATION_SUCCESS_def
        of_opt_def)
  have a1: "snd (setupActivation (Some counting_callback) (Some ''x'')
          (createRequestActivationMessage (JNum 7) None) ([], 0)) = ([], 0)"
    using listener_answers_accepted_requests
        [of "Some ''x''" "createRequestActivationMessage (JNum 7) None" "Some counting_callback"
          "([], 0)"] n1 by blast
  have a2: "snd (setupActivation (Some counting_callback) None
          (createRequestActivationMessage (JNum 7) (Some ''x'')) ([], 0)) = ([], 0)"
    using listener_answers_accepted_requests
        [of None "createRequestActivationMessage (JNum 7) (Some ''x'')" "Some counting_callback"
          "([], 0)"] n2 by blast
  have a3: "snd (setupActivation (Some counting_callback) (Some ''x'') (JStr ''hello'') ([], 0))
            = ([], 0)"
    using listener_answers_accepted_requests
        [of "Some ''x''" "JStr ''hello''" "Some counting_callback" "([], 0)"] n3 by blast
  have a4: "setupActivation None (Some ''x'')
          (createRequestActivationMessage (JNum 7) (Some ''x'')) ([], 0 :: nat) =
        (Inr (), ([SendResponse (createActivationSuccessMessage (Some ''x''))], 0))"
    using listener_answers_accepted_requests
        [of "Some ''x''" "createRequestActivationMessage (JNum 7) (Some ''x'')" None
          "([], 0 :: nat)"] y by simp
  have a5: "setupActivation (Some counting_callback) (Some ''x'')
          (createRequestActivationMessage (JNum 7) (Some ''x'')) ([], 0) =
        (Inr (), ([OnActivation (JNum 7) (JStr ''x'') (Inr ()),
                   SendResponse (createActivationSuccessMessage (Some ''x''))], 1))"
    using listener_answers_accepted_requests
        [of "Some ''x''" "createRequestActivationMessage (JNum 7) (Some ''x'')"
          "Some counting_callback" "([], 0)" counting_callback "JNum 7" 1] y c f
    by (simp add: of_opt_def)
  have a6: "setupActivation (Some throwing_callback) (Some ''x'')
          (createRequestActivationMessage (JNum 7) (Some ''x'')) ([], 0) =
        (Inl (Thrown (JStr ''boom'')),
         ([OnActivation (JNum 7) (JStr ''x'') (Inl (Thrown (JStr ''boom'')))], 0))"
    using listener_answers_accepted_requests
        [of "Some ''x''" "createRequestActivationMessage (JNum 7) (Some ''x'')"
          "Some throwing_callback" "([], 0)" throwing_callback "JNum 7" 0
          "Thrown (JStr ''boom'')"] y c g
    by (simp add: of_opt_def)
  from a1 a2 a3 a4 a5 a6 m show ?thesis by blast
qed



text \<open>
  Claim C6. When the first message a trigger sends gets a response that is an
  activation-success message with the configured script id, that message is the only one
  the trigger sends, no script or style is injected, no hook runs, and the trigger is
  fulfilled.
\<close>

theorem successful_probe_is_terminal:
  assumes "activate br opts t ([], w) = (r, (evs, w'))"
    and "filter is_send evs = SendMessage tid m res # later"
    and "probe_succeeded (scriptId opts) res"
  shows "later = [] \<and> filter is_dispatch evs = [] \<and> filter is_before evs = []
         \<and> filter is_after evs = [] \<and> r = Inr ()"
  using assms(1)
proof (cases rule: activate_cases)
  case no_id
  with assms(2) show ?thesis by simp
next
  case (filter_failed e)
  with assms(2) show ?thesis by simp
next
  case (filtered_out v)
  with assms(2) show ?thesis by simp
next
  case (active fs res')
  with assms(2) show ?thesis by auto
next
  case (inject fs res' st2)
  from inject(5) have "\<exists>tl. fst (evs, w') = fst st2 @ tl"
    by (cases rule: inject_then_activate_cases) simp_all
  then obtain tl where "evs = fst st2 @ tl" by auto
  with inject(2,4) assms(2) have "res = res'" by auto
  with inject(3) assms(3) show ?thesis by simp
qed

text \<open>An untagged controller with a listening untagged agent: the callback runs once.\<close>

theorem successful_probe_is_terminal_witness:
  "activate (agent_host (setupActivation (Some counting_callback) None)) (tagged_options None)
     tab1 ([], ([], 0))
   = (Inr (),
      (live_events,
       ([OnActivation (context_val tab1_context) JUndefined (Inr ()),
         SendResponse (createActivationSuccessMessage None)], 1)))
   \<and> filter is_send live_events
       = [SendMessage (JNum 1) (request_of tab1_context)
            (Inr (createActivationSuccessMessage None))]
   \<and> probe_succeeded (scriptId (tagged_options None :: (nat page) options))
        (Inr (createActivationSuccessMessage None))
   \<and> filter is_dispatch live_events = []
   \<and> filter is_before live_events = []
   \<and> filter is_after live_events = []"
proof -
  have sends: "filter is_send live_events
       = SendMessage (JNum 1) (request_of tab1_context)
            (Inr (createActivationSuccessMessage None)) # []"
    by (simp add: live_events_def)
  have ok: "probe_succeeded (scriptId (tagged_options None :: (nat page) options))
        (Inr (createActivationSuccessMessage None))"
    by (simp add: probe_succeeded_def message_predicates message_props tagged_options_def)
  from successful_probe_is_terminal [OF live_run sends ok] live_run sends ok
  show ?thesis by simp
qed

text \<open>
  Claim C7. A trigger on a tab whose \<open>id\<close> is missing (or otherwise falsy) does
  nothing: no event is added to the run (no filter, message, hook or injection), the world
  is unchanged, and the handler's promise is fulfilled.
\<close>

theorem activate_without_tab_id:
  "\<not> truthy (own_prop t ''id'') \<Longrightarrow> activate br opts t st = (Inr (), st)"
  by (simp add: activate_def)

text \<open>A tab object with a URL and no id.\<close>

theorem activate_without_tab_id_witness:
  "\<not> truthy (own_prop [(''url'', JStr ''about:blank'')] ''id'')
   \<and> activate cold_host (resolve_options (ScriptString ''a.js''))
        [(''url'', JStr ''about:blank'')] ([], ()) = (Inr (), ([], ()))"
proof -
  have h: "\<not> truthy (own_prop [(''url'', JStr ''about:blank'')] ''id'')"
    by (simp add: truthy_def own_prop_def)
  show ?thesis
    using h activate_without_tab_id [OF h, of cold_host "resolve_options (ScriptString ''a.js'')" "([], ())"]
    by simp
qed

text \<open>
  Claim C8. \<open>activateContentScript\<close> never rejects: its result is whether the probe
  succeeded. A message that failed (no listener, timeout, transport error) and a response
  that is not an activation-success message (a malformed one, on which the predicate
  throws, included) both count as not succeeded. And a trigger in whose run nothing but
  messages failed is fulfilled: a failed message never rejects the trigger.
\<close>

theorem probe_failures_are_swallowed:
  "fst (activateContentScript br c sid st)
     = Inr (probe_succeeded sid (fst (tabs_sendMessage br (tabId c) (request_of c) (snd st))))
   \<and> \<not> probe_succeeded sid (Inl e)
   \<and> (isActivationSuccessMessage response \<noteq> Inr True \<longrightarrow> \<not> probe_succeeded sid (Inr response))
   \<and> (activate br opts t ([], w) = (r, (evs, w')) \<longrightarrow> (\<forall>x \<in> set evs. failed x \<longrightarrow> is_send x)
        \<longrightarrow> r = Inr ())"
proof -
  have a: "fst (activateContentScript br c sid st)
     = Inr (probe_succeeded sid (fst (tabs_sendMessage br (tabId c) (request_of c) (snd st))))"
    by (simp add: activateContentScript_eq split: prod.splits)
  have b: "\<not> probe_succeeded sid (Inl e)"
    by (simp add: probe_succeeded_def)
  have c: "isActivationSuccessMessage response \<noteq> Inr True \<longrightarrow> \<not> probe_succeeded sid (Inr response)"
    by (simp add: probe_succeeded_def)
  have d: "r = Inr ()"
    if run: "activate br opts t ([], w) = (r, (evs, w'))"
      and ok: "\<forall>x \<in> set evs. failed x \<longrightarrow> is_send x"
    using run
  proof (cases rule: activate_cases)
    case no_id
    then show ?thesis by simp
  next
    case (filter_failed e)
    then have "FilterTab t (Inl e) \<in> set evs" by simp
    with ok have "is_send (FilterTab t (Inl e))" by fastforce
    then show ?thesis by simp
  next
    case (filtered_out v)
    then show ?thesis by simp
  next
    case (active fs res)
    then show ?thesis by simp
  next
    case (inject fs res st2)
    from inject(5) show ?thesis
    proof (cases rule: inject_then_activate_cases)
      case (before_failed e)
      then have "BeforeInjection (context_val \<lparr>tab = t, tabId = own_prop t ''id''\<rparr>) (Inl e)
                 \<in> set evs" by simp
      with ok have "is_send (BeforeInjection (context_val \<lparr>tab = t, tabId = own_prop t ''id''\<rparr>)
                      (Inl e))" by fastforce
      then show ?thesis by simp
    next
      case (injection_failed e bs rs)
      from injection_events_outcome_elem [OF injection_failed(4,2)]
      obtain y where y: "y \<in> set (injection_events (tabId \<lparr>tab = t, tabId = own_prop t ''id''\<rparr>)
                                  (resolve_inject (inject opts)) rs)"
        "dispatch_outcome y = Some (Inl e)" by blast
      from y(1) injection_failed(5) have yin: "y \<in> set evs" by simp
      from y(2) have yf: "failed y \<and> \<not> is_send y" by (cases y) simp_all
      from ok yin yf show ?thesis by blast
    next
      case (after_failed e bs rs)
      then have "AfterInjection (context_val \<lparr>tab = t, tabId = own_prop t ''id''\<rparr>) (Inl e)
                 \<in> set evs" by simp
      with ok have "is_send (AfterInjection (context_val \<lparr>tab = t, tabId = own_prop t ''id''\<rparr>)
                      (Inl e))" by fastforce
      then show ?thesis by simp
    next
      case (reprobed bs rs as res')
      then show ?thesis by simp
    qed
  qed
  from a b c d show ?thesis by blast
qed

text \<open>Both probes fail on the host where nothing listens, and the trigger is fulfilled.\<close>

theorem probe_failures_are_swallowed_witness:
  "fst (activateContentScript cold_host tab1_context (Some ''x'') ([], ())) = Inr False
   \<and> \<not> probe_succeeded (Some ''x'') (Inl no_receiver)
   \<and> isActivationSuccessMessage JUndefined \<noteq> Inr True
   \<and> \<not> probe_succeeded (Some ''x'') (Inr JUndefined)
   \<and> activate cold_host (scenario_options ok_hook ok_hook (Some ''x'')) tab1 ([], ())
       = (Inr (), (cold_events, ()))
   \<and> filter (\<lambda>x. failed x \<and> \<not> is_send x) cold_events = []"
proof -
  have run: "activate cold_host (scenario_options ok_hook ok_hook (Some ''x'')) tab1 ([], ())
     = (Inr (), (cold_events, ()))"
    by (rule cold_run)
  have h: "\<forall>x \<in> set cold_events. failed x \<longrightarrow> is_send x"
    by (simp add: cold_events_def)
  have f: "filter (\<lambda>x. failed x \<and> \<not> is_send x) cold_events = []"
    by (simp add: cold_events_def)
  have u: "isActivationSuccessMessage JUndefined \<noteq> Inr True"
    by (simp add: isActivationSuccessMessage_def js_in_def)
  have s: "fst (tabs_sendMessage cold_host (tabId tab1_context) (request_of tab1_context)
                  (snd ([], ()))) = Inl no_receiver"
    by (simp add: cold_host_def)
  from probe_failures_are_swallowed
    [of cold_host tab1_context "Some ''x''" "([], ())" no_receiver JUndefined
      "scenario_options ok_hook ok_hook (Some ''x'')" tab1 "()" "Inr ()" cold_events "()"]
    run h f u s
  show ?thesis by simp
qed

text \<open>
  Claim C9. When an injection made during a trigger is rejected, the trigger is rejected,
  with the error of a rejected injection. Nothing is retried: every planned script and
  style injection was started exactly once, the hook after the injection did not run, and
  the first probe is the only message the trigger sent.
\<close>

theorem rejected_injection_rejects_trigger:
  assumes "activate br opts t ([], w) = (r, (evs, w'))"
    and "x \<in> set evs" and "is_dispatch x" and "failed x"
  shows "(\<exists>err y. r = Inl err \<and> y \<in> set evs \<and> dispatch_outcome y = Some (Inl err))
         \<and> script_calls evs
             = map (with_target (own_prop t ''id'')) (script_plan (resolve_inject (inject opts)))
         \<and> style_calls evs
             = map (with_target (own_prop t ''id'')) (style_plan (resolve_inject (inject opts)))
         \<and> filter is_after evs = []
         \<and> length (filter is_send evs) = 1"
proof -
  from assms(2,3) have xd: "x \<in> set (filter is_dispatch evs)" by simp
  from assms(1) show ?thesis
  proof (cases rule: activate_cases)
    case no_id
    with assms(2) show ?thesis by simp
  next
    case (filter_failed e)
    with xd show ?thesis by auto
  next
    case (filtered_out v)
    with xd show ?thesis by auto
  next
    case (active fs res)
    note f = filter_events_facts [OF active(2)]
    from active(5) have "filter is_dispatch evs = []" by (simp add: f)
    with xd show ?thesis by simp
  next
    case (inject fs res st2)
    let ?tid = "own_prop t ''id''"
    let ?ro = "resolve_inject (inject opts)"
    let ?send = "SendMessage ?tid (request_of \<lparr>tab = t, tabId = ?tid\<rparr>) res"
    note f = filter_events_facts [OF inject(2)]
    from inject(4) have st2: "fst st2 = fs @ [?send]" by simp
    from inject(5) show ?thesis
    proof (cases rule: inject_then_activate_cases)
      case (before_failed e)
      with st2 have "filter is_dispatch evs = []" by (simp add: f)
      with xd show ?thesis by simp
    next
      case (injection_failed e bs rs)
      note b = before_events_facts [OF injection_failed(3)]
      have len: "length rs = length (script_plan ?ro) + length (style_plan ?ro)"
        using injection_failed(4) .
      from injection_events_outcome_elem [OF len injection_failed(2), of ?tid]
      obtain y where y: "y \<in> set (injection_events ?tid ?ro rs)"
        "dispatch_outcome y = Some (Inl e)" by auto
      have evs: "evs = fs @ [?send] @ bs @ injection_events ?tid ?ro rs"
        using injection_failed(5) st2 by simp
      have 1: "\<exists>err y. r = Inl err \<and> y \<in> set evs \<and> dispatch_outcome y = Some (Inl err)"
        using y evs injection_failed(1) by auto
      have 2: "script_calls evs = map (with_target ?tid) (script_plan ?ro)"
        by (simp add: evs script_calls_append f b injection_events_calls [OF len])
      have 3: "style_calls evs = map (with_target ?tid) (style_plan ?ro)"
        by (simp add: evs style_calls_append f b injection_events_calls [OF len])
      have 4: "filter is_after evs = []"
        by (simp add: evs f b injection_events_kinds)
      have 5: "length (filter is_send evs) = 1"
        by (simp add: evs f b injection_events_kinds)
      from 1 2 3 4 5 show ?thesis by blast
    next
      case (after_failed e bs rs)
      note b = before_events_facts [OF after_failed(3)]
      have "filter is_dispatch evs = injection_events ?tid ?ro rs"
        using after_failed(5) st2 by (simp add: f b injection_events_all_dispatch)
      with xd have "x \<in> set (injection_events ?tid ?ro rs)" by simp
      from injection_events_failed_elem [OF after_failed(4) this assms(4)] after_failed(2)
      show ?thesis by blast
    next
      case (reprobed bs rs as res')
      note b = before_events_facts [OF reprobed(3)]
      note a = after_events_facts [OF reprobed(4)]
      have "filter is_dispatch evs = injection_events ?tid ?ro rs"
        using reprobed(6) st2 by (simp add: f b a injection_events_all_dispatch)
      with xd have "x \<in> set (injection_events ?tid ?ro rs)" by simp
      from injection_events_failed_elem [OF reprobed(5) this assms(4)] reprobed(2)
      show ?thesis by blast
    qed
  qed
qed

text \<open>A host that refuses scripts: the style is still dispatched, and the trigger rejects.\<close>

theorem rejected_injection_rejects_trigger_witness:
  "activate rejecting_host (scenario_options ok_hook ok_hook None) tab1 ([], ())
     = (Inl access_denied, (rejected_events, ()))
   \<and> ExecuteScript (files_injection (JNum 1) [''a.js'']) (Inl access_denied) \<in> set rejected_events
   \<and> is_dispatch (ExecuteScript (files_injection (JNum 1) [''a.js'']) (Inl access_denied))
   \<and> failed (ExecuteScript (files_injection (JNum 1) [''a.js'']) (Inl access_denied))
   \<and> script_calls rejected_events = [files_injection (JNum 1) [''a.js'']]
   \<and> style_calls rejected_events = [files_injection (JNum 1) [''b.css'']]
   \<and> filter is_after rejected_events = []
   \<and> length (filter is_send rejected_events) = 1"
proof -
  have run: "activate rejecting_host (scenario_options ok_hook ok_hook None) tab1 ([], ())
     = (Inl access_denied, (rejected_events, ()))"
    by (rule rejected_run)
  have mem: "ExecuteScript (files_injection (JNum 1) [''a.js'']) (Inl access_denied)
             \<in> set rejected_events"
    by (simp add: rejected_events_def)
  have d: "is_dispatch (ExecuteScript (files_injection (JNum 1) [''a.js'']) (Inl access_denied))"
    by simp
  have f: "failed (ExecuteScript (files_injection (JNum 1) [''a.js'']) (Inl access_denied))"
    by simp
  have calls: "script_calls rejected_events = [files_injection (JNum 1) [''a.js'']]"
    "style_calls rejected_events = [files_injection (JNum 1) [''b.css'']]"
    by (simp_all add: rejected_events_def)
  from rejected_injection_rejects_trigger [OF run mem d f] run mem calls
  show ?thesis by simp
qed

text \<open>
  Claim C10. For every context and every optional script id, the two constructors and the
  two predicates of \<open>messages.ts\<close> agree: a request message is recognised as a
  request and not as a success, a success message as a success and not as a request.
\<close>

theorem message_predicates_roundtrip:
  "isRequestActivationMessage (createRequestActivationMessage c s) = Inr True
   \<and> isActivationSuccessMessage (createRequestActivationMessage c s) = Inr False
   \<and> isActivationSuccessMessage (createActivationSuccessMessage s) = Inr True
   \<and> isRequestActivationMessage (createActivationSuccessMessage s) = Inr False"
  by (simp add: message_predicates)


end
